theory Spec2Isabelle
  imports Complex_Main
begin

section \<open>JavaScript numbers\<close>

text \<open>
  A JavaScript number is an IEEE-754 binary64 value: a finite value, an infinity or
  \<open>NaN\<close>. The two zeros are one value here; the operations below (\<open><\<close>, \<open>>\<close>, \<open>*\<close>, \<open>-\<close>
  and halving) cannot tell them apart.
\<close>

datatype number = Fin real | PosInfinity | NegInfinity | NaN

text \<open>The number of binary digits of a natural number.\<close>

fun bits :: "nat \<Rightarrow> nat" where
  "bits n = (if n = 0 then 0 else Suc (bits (n div 2)))"

definition pow2 :: "int \<Rightarrow> real" where
  "pow2 k = (if 0 \<le> k then 2 ^ nat k else 1 / 2 ^ nat (- k))"

text \<open>For \<open>a > 0\<close>, the exponent \<open>e\<close> with \<open>2^e \<le> a < 2^(e + 1)\<close>.\<close>

definition exponent :: "real \<Rightarrow> int" where
  "exponent a =
     (if 1 \<le> a then int (bits (nat \<lfloor>a\<rfloor>)) - 1 else - int (bits (nat (\<lceil>1 / a\<rceil> - 1))))"

definition roundHalfEven :: "real \<Rightarrow> int" where
  "roundHalfEven r =
     (let f = \<lfloor>r\<rfloor> in
      if r - of_int f < 1 / 2 then f
      else if 1 / 2 < r - of_int f then f + 1
      else if even f then f else f + 1)"

text \<open>
  The binary64 value nearest to a real, ties to the even significand: 53 significant
  bits at the exponent of the real, the fixed spacing \<open>2^-1074\<close> below \<open>2^-1022\<close>, an
  infinity from \<open>2^1024\<close> on. Every arithmetic operation of the language returns the exact
  result rounded this way, and a decimal literal denotes its value rounded this way.
\<close>

definition round64 :: "real \<Rightarrow> number" where
  "round64 x =
     (if x = 0 then Fin 0
      else
        let e = max (exponent \<bar>x\<bar>) (- 1022);
            q = pow2 (e - 52);
            r = q * of_int (roundHalfEven (x / q))
        in if pow2 1024 \<le> r then PosInfinity
           else if r \<le> - pow2 1024 then NegInfinity
           else Fin r)"

text \<open>\<open>a < b\<close>; \<open>a > b\<close> is \<open>b < a\<close>. A comparison with \<open>NaN\<close> is false.\<close>

fun num_lt :: "number \<Rightarrow> number \<Rightarrow> bool" where
  "num_lt NaN b = False"
| "num_lt a NaN = False"
| "num_lt (Fin a) (Fin b) = (a < b)"
| "num_lt (Fin a) PosInfinity = True"
| "num_lt (Fin a) NegInfinity = False"
| "num_lt PosInfinity b = False"
| "num_lt NegInfinity NegInfinity = False"
| "num_lt NegInfinity b = True"

text \<open>\<open>a * b\<close>\<close>

fun num_mul :: "number \<Rightarrow> number \<Rightarrow> number" where
  "num_mul NaN b = NaN"
| "num_mul a NaN = NaN"
| "num_mul (Fin a) (Fin b) = round64 (a * b)"
| "num_mul (Fin a) PosInfinity =
     (if a = 0 then NaN else if 0 < a then PosInfinity else NegInfinity)"
| "num_mul (Fin a) NegInfinity =
     (if a = 0 then NaN else if 0 < a then NegInfinity else PosInfinity)"
| "num_mul PosInfinity (Fin b) =
     (if b = 0 then NaN else if 0 < b then PosInfinity else NegInfinity)"
| "num_mul NegInfinity (Fin b) =
     (if b = 0 then NaN else if 0 < b then NegInfinity else PosInfinity)"
| "num_mul PosInfinity PosInfinity = PosInfinity"
| "num_mul PosInfinity NegInfinity = NegInfinity"
| "num_mul NegInfinity PosInfinity = NegInfinity"
| "num_mul NegInfinity NegInfinity = PosInfinity"

text \<open>\<open>a - b\<close>\<close>

fun num_sub :: "number \<Rightarrow> number \<Rightarrow> number" where
  "num_sub NaN b = NaN"
| "num_sub a NaN = NaN"
| "num_sub (Fin a) (Fin b) = round64 (a - b)"
| "num_sub (Fin a) PosInfinity = NegInfinity"
| "num_sub (Fin a) NegInfinity = PosInfinity"
| "num_sub PosInfinity PosInfinity = NaN"
| "num_sub PosInfinity b = PosInfinity"
| "num_sub NegInfinity NegInfinity = NaN"
| "num_sub NegInfinity b = NegInfinity"

text \<open>\<open>a / 2\<close>\<close>

fun num_half :: "number \<Rightarrow> number" where
  "num_half (Fin a) = round64 (a / 2)"
| "num_half a = a"

section \<open>The drop-position calculator (main.ts, lines 33-58)\<close>

text \<open>
  The rule names and the positions are the string literal unions \<open>DropPositionRules\<close>
  and \<open>DropPosition\<close> of the source (the constructor names carry a prefix because \<open>in\<close> is
  a keyword).
\<close>

datatype DropPositionRules =
  Rule_all | Rule_notAfter | Rule_around | Rule_none | Rule_in | Rule_before | Rule_after

datatype DropPosition = Pos_before | Pos_after | Pos_in | Pos_none

text \<open>
  \<open>calcPosition(allowedPositions, threshold = 0.3)(offset, widthOrHeight)\<close>. The
  threshold argument is optional in the source; \<open>None\<close> is the omitted argument, which
  takes the value of the literal \<open>0.3\<close>.
\<close>

definition calcPosition ::
  "DropPositionRules \<Rightarrow> number option \<Rightarrow> number \<Rightarrow> number \<Rightarrow> DropPosition" where
  "calcPosition allowedPositions thresholdArg offset widthOrHeight =
     (let threshold = (case thresholdArg of None \<Rightarrow> round64 (3 / 10) | Some t \<Rightarrow> t) in
      case allowedPositions of
        Rule_all \<Rightarrow>
          (if num_lt offset (num_mul widthOrHeight threshold) then Pos_before
           else if num_lt (num_mul widthOrHeight (num_sub (Fin 1) threshold)) offset
           then Pos_after
           else Pos_in)
      | Rule_notAfter \<Rightarrow>
          (if num_lt offset (num_mul widthOrHeight threshold) then Pos_before else Pos_in)
      | Rule_around \<Rightarrow>
          (if num_lt offset (num_half widthOrHeight) then Pos_before else Pos_after)
      | Rule_none \<Rightarrow> Pos_none
      | Rule_in \<Rightarrow> Pos_in
      | Rule_before \<Rightarrow> Pos_before
      | Rule_after \<Rightarrow> Pos_after)"

section \<open>The page as the engine sees it\<close>

text \<open>
  Elements are node identities. A \<open>dom\<close> value is the page at the moment one native event
  is handled: the queries the engine makes on it. The page may differ from one event to
  the next (the selection model, the geometry), so every event of a trace comes with its
  own snapshot.

  Modelled from the spec: \<open>getClosestScrollContainer\<close> of \<open>./utils\<close>, which is not among
  the source files. Section 4.3 makes it a pure function of the current layout (the
  nearest scrollable ancestor, or the window), so it is one of the queries on the page.
\<close>

type_synonym elem = nat
type_synonym selector = string

datatype scroll = ScrollElement elem | Window

record rect =
  height :: real
  width :: real

record dom =
  closest :: "elem \<Rightarrow> selector \<Rightarrow> elem option"
  contains :: "elem \<Rightarrow> elem \<Rightarrow> bool"
  getAttribute :: "elem \<Rightarrow> string \<Rightarrow> string option"
  getBoundingClientRect :: "elem \<Rightarrow> rect"
  getClosestScrollContainer :: "elem \<Rightarrow> scroll"

text \<open>
  The target of a native event: an \<open>HTMLElement\<close>, another element (it has \<open>closest\<close> but
  fails \<open>instanceof HTMLElement\<close>), or a node without \<open>closest\<close> such as a text node.
\<close>

datatype target = HTMLElement elem | OtherElement elem | NonElement

text \<open>\<open>(e.target as HTMLElement)?.closest?.(selector)\<close>\<close>

definition closestOf :: "dom \<Rightarrow> target \<Rightarrow> selector \<Rightarrow> elem option" where
  "closestOf d tgt sel =
     (case tgt of
        HTMLElement t \<Rightarrow> closest d t sel
      | OtherElement t \<Rightarrow> closest d t sel
      | NonElement \<Rightarrow> None)"

text \<open>
  The native events the engine listens to, as they reach its listeners: pointer-down
  and drag-start events that bubble to the container, drag-over and drag-end events that
  bubble to the body, pointer-up events on the document. A drag-over event carries its
  time stamp in milliseconds (read by the throttle), \<open>offsetX\<close>, \<open>offsetY\<close> and its
  target. The offsets of an event and the sides of a rectangle are finite numbers,
  written as the reals they denote; the calculator receives them as \<open>Fin\<close> values.
\<close>

datatype nativeEvent =
  Ev_mousedown target
| Ev_mouseup
| Ev_dragstart target
| Ev_dragover nat real real target
| Ev_dragend

section \<open>Configuration (main.ts, lines 60-78)\<close>

record DragDropOptions =
  container :: elem
  dragElementSelector :: selector
  dropElementSelector :: selector
  handleSelector :: "selector option"
  getElementId :: "dom \<Rightarrow> elem \<Rightarrow> string option"
  dropPositionFn :: "dom \<Rightarrow> elem \<Rightarrow> elem option \<Rightarrow> DropPositionRules"
  vertical :: bool
  dragOverThrottle :: nat
  threshold :: number
  onBeforeDragStart :: "(dom \<Rightarrow> elem \<Rightarrow> bool) option"
  getSelectedElements :: "(dom \<Rightarrow> elem list) option"

text \<open>
  A key of the caller's options object is \<open>Missing\<close> or \<open>Given\<close> with a value; for the
  handle selector and the two optional callbacks the value itself may be \<open>undefined\<close>
  (\<open>None\<close>). Object spread takes every key the caller's object has, whatever its value.
\<close>

datatype 'a objkey = Missing | Given 'a

fun spread :: "'a \<Rightarrow> 'a objkey \<Rightarrow> 'a" where
  "spread dflt Missing = dflt"
| "spread dflt (Given v) = v"

record DragDropOptionsOptional =
  o_container :: "elem objkey"
  o_dragElementSelector :: "selector objkey"
  o_dropElementSelector :: "selector objkey"
  o_handleSelector :: "selector option objkey"
  o_getElementId :: "(dom \<Rightarrow> elem \<Rightarrow> string option) objkey"
  o_dropPositionFn :: "(dom \<Rightarrow> elem \<Rightarrow> elem option \<Rightarrow> DropPositionRules) objkey"
  o_vertical :: "bool objkey"
  o_dragOverThrottle :: "nat objkey"
  o_threshold :: "number objkey"
  o_onBeforeDragStart :: "(dom \<Rightarrow> elem \<Rightarrow> bool) option objkey"
  o_getSelectedElements :: "(dom \<Rightarrow> elem list) option objkey"

text \<open>\<open>document.body\<close>, the default container.\<close>

definition document_body :: elem where
  "document_body = 0"

definition DEFAULTS :: DragDropOptions where
  "DEFAULTS =
     \<lparr> container = document_body,
       dragElementSelector = ''[data-id]'',
       dropElementSelector = ''[data-id]'',
       handleSelector = Some ''[data-id]'',
       getElementId = (\<lambda>d el. getAttribute d el ''data-id''),
       dropPositionFn = (\<lambda>d dropElement dragElement. Rule_around),
       vertical = True,
       dragOverThrottle = 20,
       threshold = round64 (3 / 10),
       onBeforeDragStart =
         Some (\<lambda>d el.
           closest d el ''button:not([data-id]), a:not([data-id]), input, textarea'' = None),
       getSelectedElements = None \<rparr>"

text \<open>A selector is falsy when it is \<open>undefined\<close> or the empty string.\<close>

definition falsySelector :: "selector option \<Rightarrow> bool" where
  "falsySelector s = (case s of None \<Rightarrow> True | Some x \<Rightarrow> x = [])"

text \<open>
  Lines 75-78: \<open>optionsExtended = { ...DEFAULTS, ...options }\<close>, then the handle selector
  falls back to the drag-element selector when it is falsy.
\<close>

definition mergeOptions :: "DragDropOptionsOptional \<Rightarrow> DragDropOptions" where
  "mergeOptions opts =
     \<lparr> container = spread (container DEFAULTS) (o_container opts),
       dragElementSelector = spread (dragElementSelector DEFAULTS) (o_dragElementSelector opts),
       dropElementSelector = spread (dropElementSelector DEFAULTS) (o_dropElementSelector opts),
       handleSelector = spread (handleSelector DEFAULTS) (o_handleSelector opts),
       getElementId = spread (getElementId DEFAULTS) (o_getElementId opts),
       dropPositionFn = spread (dropPositionFn DEFAULTS) (o_dropPositionFn opts),
       vertical = spread (vertical DEFAULTS) (o_vertical opts),
       dragOverThrottle = spread (dragOverThrottle DEFAULTS) (o_dragOverThrottle opts),
       threshold = spread (threshold DEFAULTS) (o_threshold opts),
       onBeforeDragStart = spread (onBeforeDragStart DEFAULTS) (o_onBeforeDragStart opts),
       getSelectedElements = spread (getSelectedElements DEFAULTS) (o_getSelectedElements opts) \<rparr>"

definition optionsExtended :: "DragDropOptionsOptional \<Rightarrow> DragDropOptions" where
  "optionsExtended opts =
     (let merged = mergeOptions opts in
      if falsySelector (handleSelector merged)
      then merged\<lparr> handleSelector := Some (dragElementSelector merged) \<rparr>
      else merged)"

text \<open>
  The handle selector as the engine uses it after line 78. It is a string from there on;
  the \<open>None\<close> branch cannot be reached through \<open>optionsExtended\<close> and reads the
  drag-element selector, as line 77 does.
\<close>

definition handleSel :: "DragDropOptions \<Rightarrow> selector" where
  "handleSel cfg = (case handleSelector cfg of Some s \<Rightarrow> s | None \<Rightarrow> dragElementSelector cfg)"

section \<open>Payloads (main.ts, lines 162-179)\<close>

datatype DragDropEventType = BeforeDragStart | DragStart | DragOver | DragEnd

text \<open>
  \<open>DragDropPayload\<close>. The field \<open>type\<close> of the source is \<open>ptype\<close> here, and its field
  \<open>container\<close> is \<open>pcontainer\<close> (the options record already has a field of that name).
\<close>

record DragDropPayload =
  ptype :: DragDropEventType
  originalEvent :: nativeEvent
  dropElement :: "elem option"
  dragElements :: "elem list"
  scrollContainer :: scroll
  position :: "DropPosition option"
  options :: DragDropOptions
  pcontainer :: elem

definition createPayload ::
  "DragDropOptions \<Rightarrow> DragDropEventType \<Rightarrow> nativeEvent \<Rightarrow> elem list \<Rightarrow> scroll \<Rightarrow>
   elem option \<Rightarrow> DropPosition option \<Rightarrow> DragDropPayload" where
  "createPayload cfg type ev dragEls scrollC dropEl pos =
     \<lparr> ptype = type,
       originalEvent = ev,
       dropElement = dropEl,
       dragElements = dragEls,
       scrollContainer = scrollC,
       position = pos,
       options = cfg,
       pcontainer = container cfg \<rparr>"

section \<open>The rectangle cache\<close>

text \<open>
  Modelled from the spec: \<open>getRectCached\<close> and \<open>flushRectCache\<close> of \<open>./utils\<close>, which is
  not among the source files. Section 4.2: \<open>get(element, identityFn)\<close> returns the cached
  value if present for \<open>identityFn(element)\<close>, else queries the live geometry, stores and
  returns it; \<open>flush()\<close> clears all entries. The call in main.ts passes the container as
  a third argument, which the spec gives no role.
\<close>

type_synonym rectCache = "(string option \<times> rect) list"

definition flushRectCache :: rectCache where
  "flushRectCache = []"

definition getRectCached ::
  "dom \<Rightarrow> rectCache \<Rightarrow> elem \<Rightarrow> (dom \<Rightarrow> elem \<Rightarrow> string option) \<Rightarrow> elem \<Rightarrow> rect \<times> rectCache" where
  "getRectCached d cache el idFn cont =
     (case map_of cache (idFn d el) of
        Some r \<Rightarrow> (r, cache)
      | None \<Rightarrow> (getBoundingClientRect d el, (idFn d el, getBoundingClientRect d el) # cache))"

section \<open>The helpers of the controller (main.ts, lines 94-121)\<close>

text \<open>\<open>dragEvent[property]\<close> with \<open>property = vertical ? "offsetY" : "offsetX"\<close>.\<close>

definition axisOffset :: "DragDropOptions \<Rightarrow> real \<Rightarrow> real \<Rightarrow> real" where
  "axisOffset cfg offsetX offsetY = (if vertical cfg then offsetY else offsetX)"

text \<open>
  Lines 97-105. The source folds over the one-element array \<open>[currentElement]\<close>;
  \<open>includes\<close> is list membership.
\<close>

definition getCombinedSelectedElements :: "DragDropOptions \<Rightarrow> dom \<Rightarrow> elem \<Rightarrow> elem list" where
  "getCombinedSelectedElements cfg d currentElement =
     (case getSelectedElements cfg of
        Some provider \<Rightarrow>
          foldl (\<lambda>acc item.
                   let selectedElements = provider d in
                   if item \<in> set selectedElements then selectedElements
                   else selectedElements @ [item])
                [] [currentElement]
      | None \<Rightarrow> [currentElement])"

text \<open>\<open>dragElements[0]\<close>: \<open>undefined\<close> on the empty array.\<close>

definition firstElement :: "elem list \<Rightarrow> elem option" where
  "firstElement xs = (case xs of [] \<Rightarrow> None | x # _ \<Rightarrow> Some x)"

text \<open>
  Lines 107-121. Both arguments of the inner call are evaluated, so the rectangle is
  fetched (and cached) whatever the rule is. The result is the position and the cache
  after the call. The offset of a native event and the sides of a rectangle are
  finite numbers.
\<close>

definition calcPositionLocal ::
  "DragDropOptions \<Rightarrow> dom \<Rightarrow> rectCache \<Rightarrow> elem \<Rightarrow> elem option \<Rightarrow> real \<Rightarrow>
   DropPosition \<times> rectCache" where
  "calcPositionLocal cfg d cache dropEl dragEl offset =
     (let rule = (if dragEl \<noteq> Some dropEl then dropPositionFn cfg d dropEl dragEl else Rule_none);
          (r, cache') = getRectCached d cache dropEl (getElementId cfg) (container cfg)
      in (calcPosition rule (Some (threshold cfg)) (Fin offset)
            (Fin (if vertical cfg then height r else width r)),
          cache'))"

section \<open>The four event pipelines (main.ts, lines 126-289)\<close>

text \<open>
  Effects on the page itself (the \<open>draggable\<close> attribute, \<open>preventDefault\<close>, the data
  transfer's effect, clearing the text selection) leave the payload stream untouched and
  are not tracked.
\<close>

text \<open>\<open>mousedown$\<close>, lines 126-160: the payload it emits for one event, if any.\<close>

definition mousedown :: "DragDropOptions \<Rightarrow> dom \<Rightarrow> nativeEvent \<Rightarrow> target \<Rightarrow> DragDropPayload option" where
  "mousedown cfg d ev tgt =
     (case tgt of
        HTMLElement t \<Rightarrow>
          if (case onBeforeDragStart cfg of Some veto \<Rightarrow> veto d t | None \<Rightarrow> True)
             \<and> closest d t (handleSel cfg) \<noteq> None
          then (case (closest d t (handleSel cfg), closest d t (dragElementSelector cfg)) of
                  (Some handleElement, Some dragElement) \<Rightarrow>
                    Some (createPayload cfg BeforeDragStart ev [dragElement]
                            (getClosestScrollContainer d dragElement) None None)
                | _ \<Rightarrow> None)
          else None
      | _ \<Rightarrow> None)"

text \<open>\<open>dragStart$\<close>, lines 184-211; the cache flush is done by the caller below.\<close>

definition dragStart :: "DragDropOptions \<Rightarrow> dom \<Rightarrow> nativeEvent \<Rightarrow> target \<Rightarrow> DragDropPayload option" where
  "dragStart cfg d ev tgt =
     (case closestOf d tgt (dragElementSelector cfg) of
        None \<Rightarrow> None
      | Some dragElement \<Rightarrow>
          Some (createPayload cfg DragStart ev (getCombinedSelectedElements cfg d dragElement)
                  (getClosestScrollContainer d dragElement) None None))"

datatype error = TypeError

text \<open>
  The state one subscription to \<open>dragOver$\<close> keeps between events: the throttle
  (\<open>throttleTime\<close>, leading edge only: after a value passes at time \<open>t\<close>, values before
  \<open>t + dragOverThrottle\<close> are dropped) and the previous keys of the two
  \<open>distinctUntilChanged\<close> stages.
\<close>

record overState =
  throttledUntil :: "nat option"
  prevOffset :: "real option"
  prevPosDrop :: "(DropPosition \<times> elem) option"

definition freshOver :: overState where
  "freshOver = \<lparr> throttledUntil = None, prevOffset = None, prevPosDrop = None \<rparr>"

definition throttled :: "overState \<Rightarrow> nat \<Rightarrow> bool" where
  "throttled os t = (case throttledUntil os of None \<Rightarrow> False | Some u \<Rightarrow> t < u)"

text \<open>
  \<open>dragOver$\<close>, lines 216-267, for one subscription and one event. \<open>cur\<close> is the
  \<open>currentPayload\<close> slot; reading a field of it while it is \<open>undefined\<close> throws. The
  result is the subscription's new state, the cache, and the payload emitted, if any.
\<close>

definition dragOver ::
  "DragDropOptions \<Rightarrow> dom \<Rightarrow> nativeEvent \<Rightarrow> nat \<Rightarrow> real \<Rightarrow> real \<Rightarrow> target \<Rightarrow>
   DragDropPayload option \<Rightarrow> rectCache \<Rightarrow> overState \<Rightarrow>
   error + (overState \<times> rectCache \<times> DragDropPayload option)" where
  "dragOver cfg d ev t offsetX offsetY tgt cur cache os =
     (if dragOverThrottle cfg \<noteq> 0 \<and> throttled os t then Inr (os, cache, None)
      else
        let os1 = (if dragOverThrottle cfg \<noteq> 0
                   then os\<lparr> throttledUntil := Some (t + dragOverThrottle cfg) \<rparr> else os);
            offset = axisOffset cfg offsetX offsetY;
            dropEl = closestOf d tgt (dropElementSelector cfg)
        in if prevOffset os1 = Some offset then Inr (os1, cache, None)
           else
             let os2 = os1\<lparr> prevOffset := Some offset \<rparr> in
             case dropEl of
               None \<Rightarrow> Inr (os2, cache, None)
             | Some dropE \<Rightarrow>
                 (case cur of
                    None \<Rightarrow> Inl TypeError
                  | Some currentPayload \<Rightarrow>
                      let (pos, cache') =
                            calcPositionLocal cfg d cache dropE
                              (firstElement (dragElements currentPayload)) offset
                      in if prevPosDrop os2 = Some (pos, dropE) then Inr (os2, cache', None)
                         else
                           let os3 = os2\<lparr> prevPosDrop := Some (pos, dropE) \<rparr> in
                           if pos \<noteq> Pos_none \<and> contains d (container cfg) dropE
                           then Inr (os3, cache',
                                  Some (createPayload cfg DragOver ev (dragElements currentPayload)
                                          (getClosestScrollContainer d dropE)
                                          (Some dropE) (Some pos)))
                           else Inr (os3, cache', None)))"

text \<open>\<open>dragEnd$\<close>, lines 272-289.\<close>

definition dragEnd :: "DragDropOptions \<Rightarrow> nativeEvent \<Rightarrow> DragDropPayload option \<Rightarrow> error + DragDropPayload" where
  "dragEnd cfg ev cur =
     (case cur of
        None \<Rightarrow> Inl TypeError
      | Some currentPayload \<Rightarrow>
          Inr (createPayload cfg DragEnd ev (dragElements currentPayload)
                 (ScrollElement (pcontainer currentPayload))
                 (dropElement currentPayload) (position currentPayload)))"

section \<open>Bringing it all together (main.ts, lines 294-305)\<close>

text \<open>
  \<open>mousedown$.pipe(mergeMap(...), tap(...))\<close>. Every mouse-down that passes the filters
  subscribes one more inner observable
  \<open>merge(of(mousedown), dragStart$.pipe(take(1)), dragOver$.pipe(takeUntil(dragEnd$)),
  dragEnd$.pipe(take(1)))\<close>; \<open>mergeMap\<close> keeps the earlier ones subscribed. An \<open>inner\<close>
  records which of its three listening parts are still subscribed and the state of its
  drag-over pipeline.
\<close>

record inner =
  startOpen :: bool
  overOpen :: bool
  over :: overState
  endOpen :: bool

definition newInner :: inner where
  "newInner = \<lparr> startOpen = True, overOpen = True, over = freshOver, endOpen = True \<rparr>"

text \<open>
  The engine: the \<open>currentPayload\<close> slot (\<open>undefined\<close> until the first payload), the inner
  subscriptions in the order they were made, and the rectangle cache.
\<close>

record engine =
  currentPayload :: "DragDropPayload option"
  inners :: "inner list"
  rects :: rectCache

definition initial :: engine where
  "initial = \<lparr> currentPayload = None, inners = [], rects = [] \<rparr>"

text \<open>\<open>tap((payload) => (currentPayload = payload))\<close>, line 304.\<close>

definition storePayload :: "DragDropPayload option \<Rightarrow> DragDropPayload option \<Rightarrow> DragDropPayload option" where
  "storePayload out cur = (case out of None \<Rightarrow> cur | Some p \<Rightarrow> Some p)"

definition emitted :: "DragDropPayload option \<Rightarrow> DragDropPayload list" where
  "emitted out = (case out of None \<Rightarrow> [] | Some p \<Rightarrow> [p])"

text \<open>
  One native event reaches the listeners of the inner subscriptions in the order they
  were registered. Each listener runs to its end, the payload it emits is stored in the
  slot, and the next listener sees the slot and the cache the previous one left. An
  exception in a listener ends the whole stream.
\<close>

fun deliver ::
  "(DragDropPayload option \<Rightarrow> rectCache \<Rightarrow> inner \<Rightarrow>
      error + (rectCache \<times> inner \<times> DragDropPayload option)) \<Rightarrow>
   DragDropPayload option \<Rightarrow> rectCache \<Rightarrow> inner list \<Rightarrow>
   error + (DragDropPayload option \<times> rectCache \<times> inner list \<times> DragDropPayload list)" where
  "deliver h cur cache [] = Inr (cur, cache, [], [])"
| "deliver h cur cache (i # rest) =
     (case h cur cache i of
        Inl e \<Rightarrow> Inl e
      | Inr (cache1, i1, out) \<Rightarrow>
          (case deliver h (storePayload out cur) cache1 rest of
             Inl e \<Rightarrow> Inl e
           | Inr (cur2, cache2, rest2, outs) \<Rightarrow> Inr (cur2, cache2, i1 # rest2, emitted out @ outs)))"

text \<open>\<open>dragStart$.pipe(take(1))\<close>; the map of lines 194-210 flushes the cache.\<close>

definition startInner ::
  "DragDropOptions \<Rightarrow> dom \<Rightarrow> nativeEvent \<Rightarrow> target \<Rightarrow> DragDropPayload option \<Rightarrow> rectCache \<Rightarrow>
   inner \<Rightarrow> error + (rectCache \<times> inner \<times> DragDropPayload option)" where
  "startInner cfg d ev tgt cur cache i =
     (if startOpen i
      then (case dragStart cfg d ev tgt of
              None \<Rightarrow> Inr (cache, i, None)
            | Some p \<Rightarrow> Inr (flushRectCache, i\<lparr> startOpen := False \<rparr>, Some p))
      else Inr (cache, i, None))"

text \<open>\<open>dragOver$.pipe(takeUntil(dragEnd$))\<close>\<close>

definition overInner ::
  "DragDropOptions \<Rightarrow> dom \<Rightarrow> nativeEvent \<Rightarrow> nat \<Rightarrow> real \<Rightarrow> real \<Rightarrow> target \<Rightarrow>
   DragDropPayload option \<Rightarrow> rectCache \<Rightarrow> inner \<Rightarrow>
   error + (rectCache \<times> inner \<times> DragDropPayload option)" where
  "overInner cfg d ev t offsetX offsetY tgt cur cache i =
     (if overOpen i
      then (case dragOver cfg d ev t offsetX offsetY tgt cur cache (over i) of
              Inl e \<Rightarrow> Inl e
            | Inr (os, cache1, out) \<Rightarrow> Inr (cache1, i\<lparr> over := os \<rparr>, out))
      else Inr (cache, i, None))"

text \<open>
  A drag-end event runs the map of \<open>dragEnd$\<close> for the notifier of \<open>takeUntil\<close>, which
  ends the drag-over part, and for \<open>dragEnd$.pipe(take(1))\<close>, which emits.
\<close>

definition endInner ::
  "DragDropOptions \<Rightarrow> nativeEvent \<Rightarrow> DragDropPayload option \<Rightarrow> rectCache \<Rightarrow> inner \<Rightarrow>
   error + (rectCache \<times> inner \<times> DragDropPayload option)" where
  "endInner cfg ev cur cache i =
     (if overOpen i \<or> endOpen i
      then (case dragEnd cfg ev cur of
              Inl e \<Rightarrow> Inl e
            | Inr p \<Rightarrow>
                Inr (cache, i\<lparr> overOpen := False, endOpen := False \<rparr>,
                     if endOpen i then Some p else None))
      else Inr (cache, i, None))"

text \<open>An inner observable completes, and is dropped, when its three parts have ended.\<close>

definition subscribed :: "inner \<Rightarrow> bool" where
  "subscribed i = (startOpen i \<or> overOpen i \<or> endOpen i)"

definition afterDelivery ::
  "error + (DragDropPayload option \<times> rectCache \<times> inner list \<times> DragDropPayload list) \<Rightarrow>
   error + (engine \<times> DragDropPayload list)" where
  "afterDelivery r =
     (case r of
        Inl e \<Rightarrow> Inl e
      | Inr (cur, cache, is, outs) \<Rightarrow>
          Inr (\<lparr> currentPayload = cur, inners = filter subscribed is, rects = cache \<rparr>, outs))"

text \<open>
  One native event: the engine after it and the payloads emitted, in order. A mouse-up
  only resets the \<open>draggable\<close> attribute (lines 148-152).
\<close>

fun step :: "DragDropOptions \<Rightarrow> dom \<Rightarrow> engine \<Rightarrow> nativeEvent \<Rightarrow> error + (engine \<times> DragDropPayload list)" where
  "step cfg d s (Ev_mousedown tgt) =
     (case mousedown cfg d (Ev_mousedown tgt) tgt of
        None \<Rightarrow> Inr (s, [])
      | Some p \<Rightarrow> Inr (s\<lparr> currentPayload := Some p, inners := inners s @ [newInner] \<rparr>, [p]))"
| "step cfg d s Ev_mouseup = Inr (s, [])"
| "step cfg d s (Ev_dragstart tgt) =
     afterDelivery
       (deliver (startInner cfg d (Ev_dragstart tgt) tgt) (currentPayload s) (rects s) (inners s))"
| "step cfg d s (Ev_dragover t offsetX offsetY tgt) =
     afterDelivery
       (deliver (overInner cfg d (Ev_dragover t offsetX offsetY tgt) t offsetX offsetY tgt)
          (currentPayload s) (rects s) (inners s))"
| "step cfg d s Ev_dragend =
     afterDelivery (deliver (endInner cfg Ev_dragend) (currentPayload s) (rects s) (inners s))"

text \<open>A trace of native events, each with the page as it is when the event is handled.\<close>

fun run ::
  "DragDropOptions \<Rightarrow> engine \<Rightarrow> (dom \<times> nativeEvent) list \<Rightarrow> error + (engine \<times> DragDropPayload list)" where
  "run cfg s [] = Inr (s, [])"
| "run cfg s ((d, ev) # rest) =
     (case step cfg d s ev of
        Inl e \<Rightarrow> Inl e
      | Inr (s1, outs1) \<Rightarrow>
          (case run cfg s1 rest of
             Inl e \<Rightarrow> Inl e
           | Inr (s2, outs2) \<Rightarrow> Inr (s2, outs1 @ outs2)))"

section \<open>A concrete page and concrete configurations\<close>

text \<open>
  The page used at concrete inputs: the body (element 0) holds a list (element 4) with
  the items 1 and 2, and next to the list an item 3 and a paragraph 7. The items have
  the \<open>data-id\<close> \<open>a\<close>, \<open>b\<close> and \<open>c\<close>, the list and the paragraph have none; every
  element is 100 high and 200 wide, and nothing scrolls but the window. The argument
  lists the items that carry the class \<open>selected\<close> at the moment of the snapshot.
\<close>

definition page :: "elem list \<Rightarrow> dom" where
  "page sel =
     \<lparr> closest = (\<lambda>el s. if s = ''[data-id]'' \<and> (el = 1 \<or> el = 2 \<or> el = 3) then Some el else None),
       contains = (\<lambda>c el. c = el \<or> c = 0 \<or> (c = 4 \<and> (el = 1 \<or> el = 2))),
       getAttribute = (\<lambda>el name.
         if name = ''data-id''
         then (if el = 1 then Some ''a'' else if el = 2 then Some ''b''
               else if el = 3 then Some ''c'' else None)
         else if name = ''class'' \<and> el \<in> set sel then Some ''selected'' else None),
       getBoundingClientRect = (\<lambda>el. \<lparr> height = 100, width = 200 \<rparr>),
       getClosestScrollContainer = (\<lambda>el. Window) \<rparr>"

text \<open>A multi-selection provider: the items that carry the class \<open>selected\<close>, in page order.\<close>

definition selectedItems :: "dom \<Rightarrow> elem list" where
  "selectedItems d = filter (\<lambda>el. getAttribute d el ''class'' = Some ''selected'') [1, 2, 3]"

definition noOptions :: DragDropOptionsOptional where
  "noOptions =
     \<lparr> o_container = Missing, o_dragElementSelector = Missing, o_dropElementSelector = Missing,
       o_handleSelector = Missing, o_getElementId = Missing, o_dropPositionFn = Missing,
       o_vertical = Missing, o_dragOverThrottle = Missing, o_threshold = Missing,
       o_onBeforeDragStart = Missing, o_getSelectedElements = Missing \<rparr>"

definition plainConfig :: DragDropOptions where
  "plainConfig = optionsExtended noOptions"

definition selectionConfig :: DragDropOptions where
  "selectionConfig =
     optionsExtended (noOptions\<lparr> o_getSelectedElements := Given (Some selectedItems) \<rparr>)"

text \<open>The same with the list, element 4, as the container.\<close>

definition listConfig :: DragDropOptions where
  "listConfig = optionsExtended (noOptions\<lparr> o_container := Given 4 \<rparr>)"

section \<open>Predicates used in the statements\<close>

text \<open>
  The native events that can arrive between a drag-start and the end of that drag: the
  platform sends no pointer-down and no second drag-start while a drag is under way.
\<close>

definition duringDrag :: "nativeEvent \<Rightarrow> bool" where
  "duringDrag ev =
     (case ev of
        Ev_dragover t x y tgt \<Rightarrow> True
      | Ev_dragend \<Rightarrow> True
      | Ev_mouseup \<Rightarrow> True
      | _ \<Rightarrow> False)"

definition isDragover :: "nativeEvent \<Rightarrow> bool" where
  "isDragover ev = (case ev of Ev_dragover t x y tgt \<Rightarrow> True | _ \<Rightarrow> False)"

text \<open>
  One drag is under way and nothing else is subscribed: a single inner subscription,
  past its drag-start, still listening for drag-over and drag-end, and a payload in the
  slot.
\<close>

definition dragging :: "engine \<Rightarrow> bool" where
  "dragging s =
     (case inners s of
        [i] \<Rightarrow> \<not> startOpen i \<and> overOpen i \<and> endOpen i \<and> currentPayload s \<noteq> None
      | _ \<Rightarrow> False)"

text \<open>The slot holds a payload whose dragged set is \<open>D\<close>.\<close>

definition carries :: "elem list \<Rightarrow> DragDropPayload option \<Rightarrow> bool" where
  "carries D cur = (case cur of None \<Rightarrow> False | Some c \<Rightarrow> dragElements c = D)"

section \<open>Evaluation at concrete inputs\<close>

lemmas model_defs =
  plainConfig_def selectionConfig_def optionsExtended_def mergeOptions_def DEFAULTS_def
  noOptions_def falsySelector_def initial_def page_def selectedItems_def mousedown_def
  handleSel_def createPayload_def afterDelivery_def startInner_def overInner_def dragStart_def
  dragOver_def closestOf_def getCombinedSelectedElements_def newInner_def storePayload_def
  emitted_def endInner_def dragEnd_def subscribed_def flushRectCache_def document_body_def
  freshOver_def throttled_def axisOffset_def calcPositionLocal_def calcPosition_def
  getRectCached_def firstElement_def listConfig_def

lemmas round64_defs = round64_def exponent_def pow2_def roundHalfEven_def Let_def

declare bits.simps [simp del]

lemma bits_0 [simp]: "bits 0 = 0"
  by (simp add: bits.simps [of 0])

lemma bits_Suc_0 [simp]: "bits (Suc 0) = Suc 0"
  by (simp add: bits.simps [of "Suc 0"])

lemma bits_numeral [simp]: "bits (numeral k) = Suc (bits (numeral k div 2))"
  by (simp add: bits.simps [of "numeral k"])

text \<open>Half of 100, the side of every rectangle of the concrete page.\<close>

lemma round64_50 [simp]: "round64 50 = Fin 50"
  by (simp add: round64_defs)

lemma num_lt_irrefl: "\<not> num_lt a a"
  by (cases a) simp_all


section \<open>The position calculator\<close>

text \<open>
  Read as three separate equivalences, the row of \<open>all\<close> does not describe the code: with
  threshold 0.75, size 100 and offset 50 (every value and every intermediate result
  exact in binary64) the offset is above \<open>size * (1 - t) = 25\<close>, yet it is also below
  \<open>size * t = 75\<close> and the first test wins: the position is \<open>before\<close>, not \<open>after\<close>.
\<close>

theorem calcPosition_after_counterexample:
  "num_lt (num_mul (Fin 100) (num_sub (Fin 1) (Fin (3 / 4)))) (Fin 50)
   \<and> calcPosition Rule_all (Some (Fin (3 / 4))) (Fin 50) (Fin 100) = Pos_before
   \<and> \<not> ((calcPosition Rule_all (Some (Fin (3 / 4))) (Fin 50) (Fin 100) = Pos_after)
          = num_lt (num_mul (Fin 100) (num_sub (Fin 1) (Fin (3 / 4)))) (Fin 50))"
  by (simp add: calcPosition_def round64_defs)

text \<open>
  C1, amended. For every rule, threshold \<open>t\<close>, offset and size (any JavaScript numbers,
  with \<open>*\<close>, \<open>-\<close>, \<open>/\<close>, \<open><\<close> and \<open>>\<close> those of the language), \<open>calcPosition\<close> returns the
  value of the table of section 4.1 read from top to bottom: \<open>all\<close> gives \<open>before\<close>
  exactly when \<open>offset < size * t\<close>; it gives \<open>after\<close> exactly when that fails and
  \<open>offset > size * (1 - t)\<close>; it gives \<open>in\<close> exactly when both fail. \<open>notAfter\<close> gives
  \<open>before\<close> exactly when \<open>offset < size * t\<close> and \<open>in\<close> otherwise; \<open>around\<close> gives \<open>before\<close>
  exactly when \<open>offset < size / 2\<close> and \<open>after\<close> otherwise; \<open>none\<close>, \<open>in\<close>, \<open>before\<close> and
  \<open>after\<close> are constant. The comparisons are strict: an offset equal to the computed
  \<open>size * t\<close> is never \<open>before\<close> under \<open>all\<close> and is \<open>in\<close> under \<open>notAfter\<close>, and an offset
  equal to the computed \<open>size / 2\<close> is \<open>after\<close> under \<open>around\<close>. An omitted threshold is
  the literal 0.3. The scenario of section 8 follows (threshold 0.3, height 100, offsets
  20, 50, 90 and 30), and two inputs where the rounding of the products decides: with
  threshold 0.3 and size 90 the offset 63 is \<open>after\<close>, and with threshold 0.1 and size 3
  the offset 0.3 is \<open>before\<close>.
\<close>

theorem calcPosition_table:
  "(calcPosition Rule_all (Some t) offset sz = Pos_before) = num_lt offset (num_mul sz t)
   \<and> (calcPosition Rule_all (Some t) offset sz = Pos_after)
       = (\<not> num_lt offset (num_mul sz t) \<and> num_lt (num_mul sz (num_sub (Fin 1) t)) offset)
   \<and> (calcPosition Rule_all (Some t) offset sz = Pos_in)
       = (\<not> num_lt offset (num_mul sz t) \<and> \<not> num_lt (num_mul sz (num_sub (Fin 1) t)) offset)
   \<and> calcPosition Rule_all (Some t) offset sz \<noteq> Pos_none
   \<and> (calcPosition Rule_notAfter (Some t) offset sz = Pos_before) = num_lt offset (num_mul sz t)
   \<and> (calcPosition Rule_notAfter (Some t) offset sz = Pos_in) = (\<not> num_lt offset (num_mul sz t))
   \<and> (calcPosition Rule_around (Some t) offset sz = Pos_before) = num_lt offset (num_half sz)
   \<and> (calcPosition Rule_around (Some t) offset sz = Pos_after) = (\<not> num_lt offset (num_half sz))
   \<and> calcPosition Rule_none (Some t) offset sz = Pos_none
   \<and> calcPosition Rule_in (Some t) offset sz = Pos_in
   \<and> calcPosition Rule_before (Some t) offset sz = Pos_before
   \<and> calcPosition Rule_after (Some t) offset sz = Pos_after
   \<and> calcPosition Rule_all (Some t) (num_mul sz t) sz \<noteq> Pos_before
   \<and> calcPosition Rule_notAfter (Some t) (num_mul sz t) sz = Pos_in
   \<and> calcPosition Rule_around (Some t) (num_half sz) sz = Pos_after
   \<and> calcPosition rule None offset sz = calcPosition rule (Some (round64 (3 / 10))) offset sz
   \<and> calcPosition Rule_all (Some (round64 (3 / 10))) (Fin 20) (Fin 100) = Pos_before
   \<and> calcPosition Rule_all (Some (round64 (3 / 10))) (Fin 50) (Fin 100) = Pos_in
   \<and> calcPosition Rule_all (Some (round64 (3 / 10))) (Fin 90) (Fin 100) = Pos_after
   \<and> calcPosition Rule_all (Some (round64 (3 / 10))) (Fin 30) (Fin 100) = Pos_in
   \<and> calcPosition Rule_all (Some (round64 (3 / 10))) (Fin 63) (Fin 90) = Pos_after
   \<and> calcPosition Rule_all (Some (round64 (1 / 10))) (round64 (3 / 10)) (Fin 3) = Pos_before"
proof -
  have table:
    "(calcPosition Rule_all (Some t) offset sz = Pos_before) = num_lt offset (num_mul sz t)
     \<and> (calcPosition Rule_all (Some t) offset sz = Pos_after)
         = (\<not> num_lt offset (num_mul sz t) \<and> num_lt (num_mul sz (num_sub (Fin 1) t)) offset)
     \<and> (calcPosition Rule_all (Some t) offset sz = Pos_in)
         = (\<not> num_lt offset (num_mul sz t) \<and> \<not> num_lt (num_mul sz (num_sub (Fin 1) t)) offset)
     \<and> calcPosition Rule_all (Some t) offset sz \<noteq> Pos_none
     \<and> (calcPosition Rule_notAfter (Some t) offset sz = Pos_before) = num_lt offset (num_mul sz t)
     \<and> (calcPosition Rule_notAfter (Some t) offset sz = Pos_in) = (\<not> num_lt offset (num_mul sz t))
     \<and> (calcPosition Rule_around (Some t) offset sz = Pos_before) = num_lt offset (num_half sz)
     \<and> (calcPosition Rule_around (Some t) offset sz = Pos_after) = (\<not> num_lt offset (num_half sz))
     \<and> calcPosition Rule_none (Some t) offset sz = Pos_none
     \<and> calcPosition Rule_in (Some t) offset sz = Pos_in
     \<and> calcPosition Rule_before (Some t) offset sz = Pos_before
     \<and> calcPosition Rule_after (Some t) offset sz = Pos_after
     \<and> calcPosition Rule_all (Some t) (num_mul sz t) sz \<noteq> Pos_before
     \<and> calcPosition Rule_notAfter (Some t) (num_mul sz t) sz = Pos_in
     \<and> calcPosition Rule_around (Some t) (num_half sz) sz = Pos_after
     \<and> calcPosition rule None offset sz = calcPosition rule (Some (round64 (3 / 10))) offset sz"
    by (simp add: calcPosition_def num_lt_irrefl)
  have scenario:
    "calcPosition Rule_all (Some (round64 (3 / 10))) (Fin 20) (Fin 100) = Pos_before
     \<and> calcPosition Rule_all (Some (round64 (3 / 10))) (Fin 50) (Fin 100) = Pos_in
     \<and> calcPosition Rule_all (Some (round64 (3 / 10))) (Fin 90) (Fin 100) = Pos_after
     \<and> calcPosition Rule_all (Some (round64 (3 / 10))) (Fin 30) (Fin 100) = Pos_in
     \<and> calcPosition Rule_all (Some (round64 (3 / 10))) (Fin 63) (Fin 90) = Pos_after
     \<and> calcPosition Rule_all (Some (round64 (1 / 10))) (round64 (3 / 10)) (Fin 3) = Pos_before"
    by (simp add: calcPosition_def round64_defs)
  from table scenario show ?thesis
    by (elim conjE) (intro conjI; assumption)
qed

section \<open>The resolved configuration\<close>

text \<open>
  What lines 75-78 make of the handle selector: the default \<open>[data-id]\<close> when the caller's
  object has no such key, the drag-element selector when the key is there with a falsy
  value, the caller's value otherwise.
\<close>

lemma handleSelector_resolved:
  "handleSelector (optionsExtended opts) =
     (case o_handleSelector opts of
        Missing \<Rightarrow> Some ''[data-id]''
      | Given h \<Rightarrow> (if falsySelector h then Some (dragElementSelector (optionsExtended opts)) else h))"
  by (cases "o_handleSelector opts")
     (simp_all add: optionsExtended_def mergeOptions_def DEFAULTS_def falsySelector_def Let_def)

text \<open>
  C4. A caller who supplies the drag-element selector \<open>.item\<close> and no handle selector gets
  the handle selector \<open>[data-id]\<close> of \<open>DEFAULTS\<close>, not \<open>.item\<close>: the spread has already
  filled the key in when line 76 tests it.
\<close>

theorem handleSelector_missing_key:
  "handleSelector (optionsExtended (noOptions\<lparr> o_dragElementSelector := Given ''.item'' \<rparr>))
     = Some ''[data-id]''
   \<and> dragElementSelector (optionsExtended (noOptions\<lparr> o_dragElementSelector := Given ''.item'' \<rparr>))
     = ''.item''
   \<and> handleSel (optionsExtended (noOptions\<lparr> o_dragElementSelector := Given ''.item'' \<rparr>))
     \<noteq> ''.item''"
  by (simp add: optionsExtended_def mergeOptions_def DEFAULTS_def noOptions_def falsySelector_def
        handleSel_def)

section \<open>The dragged set at drag start\<close>

lemma getCombinedSelectedElements_eq:
  "getCombinedSelectedElements cfg d el =
     (case getSelectedElements cfg of
        None \<Rightarrow> [el]
      | Some provider \<Rightarrow> (if el \<in> set (provider d) then provider d else provider d @ [el]))"
  by (simp add: getCombinedSelectedElements_def Let_def split: option.splits)

text \<open>
  With the provider returning \<open>[1]\<close> and the drag starting on item 2, which is not
  selected, the payload carries \<open>[1, 2]\<close>, not the singleton \<open>[2]\<close>.
\<close>

theorem dragStart_outside_selection_counterexample:
  "getSelectedElements selectionConfig = Some selectedItems
   \<and> selectedItems (page [1]) = [1]
   \<and> map_option dragElements
        (dragStart selectionConfig (page [1]) (Ev_dragstart (HTMLElement 2)) (HTMLElement 2))
       = Some [1, 2]
   \<and> map_option dragElements
        (dragStart selectionConfig (page [1]) (Ev_dragstart (HTMLElement 2)) (HTMLElement 2))
       \<noteq> Some [2]"
  by (simp add: model_defs)

text \<open>
  C3, amended. The payload \<open>dragStart$\<close> emits for the drag element \<open>el\<close> carries: the
  singleton \<open>[el]\<close> when no provider is configured; the provider's list, unchanged, when
  \<open>el\<close> is in it; the provider's list followed by \<open>el\<close> when \<open>el\<close> is not in it.
\<close>

theorem dragStart_dragElements:
  "map_option dragElements (dragStart cfg d ev tgt) =
     map_option
       (\<lambda>el. case getSelectedElements cfg of
                None \<Rightarrow> [el]
              | Some provider \<Rightarrow> (if el \<in> set (provider d) then provider d else provider d @ [el]))
       (closestOf d tgt (dragElementSelector cfg))"
  by (simp add: dragStart_def createPayload_def getCombinedSelectedElements_eq split: option.splits)

section \<open>Delivery of one event to the inner subscriptions\<close>

text \<open>
  An invariant of the slot and the cache that every listener keeps is kept by the whole
  delivery, which then does not fail, and every payload emitted has the property the
  listeners give their payloads.
\<close>

lemma deliver_invariant:
  assumes h: "\<And>cur cache i. I cur cache \<Longrightarrow>
                \<exists>cache' i' out. h cur cache i = Inr (cache', i', out)
                  \<and> I (storePayload out cur) cache' \<and> list_all Q (emitted out)"
    and "I cur cache"
  shows "\<exists>cur' cache' subs' outs. deliver h cur cache subs = Inr (cur', cache', subs', outs)
           \<and> I cur' cache' \<and> list_all Q outs"
  using assms(2)
proof (induction subs arbitrary: cur cache)
  case Nil
  then show ?case by simp
next
  case (Cons i rest)
  from h [OF Cons.prems, of i] obtain cache1 i1 out
    where hd: "h cur cache i = Inr (cache1, i1, out)"
      and inv: "I (storePayload out cur) cache1" and q: "list_all Q (emitted out)"
    by blast
  from Cons.IH [OF inv] obtain cur2 cache2 rest2 outs
    where tl: "deliver h (storePayload out cur) cache1 rest = Inr (cur2, cache2, rest2, outs)"
      and inv2: "I cur2 cache2" and q2: "list_all Q outs"
    by blast
  show ?case using hd tl inv2 q q2 by simp
qed

text \<open>After a delivery the slot holds the last payload emitted, if there was one.\<close>

lemma deliver_slot:
  "deliver h cur cache subs = Inr (cur', cache', subs', outs) \<Longrightarrow>
   cur' = (if outs = [] then cur else Some (last outs))"
proof (induction subs arbitrary: cur cache cur' cache' subs' outs)
  case Nil
  then show ?case by simp
next
  case (Cons i rest)
  from Cons.prems obtain cache1 i1 out rest2 outs2
    where hd: "h cur cache i = Inr (cache1, i1, out)"
      and tl: "deliver h (storePayload out cur) cache1 rest = Inr (cur', cache', rest2, outs2)"
      and outs: "outs = emitted out @ outs2"
    by (auto split: sum.splits)
  from Cons.IH [OF tl]
  have "cur' = (if outs2 = [] then storePayload out cur else Some (last outs2))" .
  then show ?case
    using outs by (cases out) (simp_all add: storePayload_def emitted_def)
qed

section \<open>The lifecycle after an aborted attempt\<close>

text \<open>
  On a fresh engine one attempt gives one \<open>BeforeDragStart\<close>, one \<open>DragStart\<close>, only
  \<open>DragOver\<close> payloads for the drag-over events and one final \<open>DragEnd\<close>, after which
  nothing is subscribed; an attempt released before any drag-start gives the
  \<open>BeforeDragStart\<close> payload alone.
\<close>

lemma run_append:
  "run cfg s (xs @ ys) =
     (case run cfg s xs of
        Inl e \<Rightarrow> Inl e
      | Inr (s1, outs1) \<Rightarrow>
          (case run cfg s1 ys of
             Inl e \<Rightarrow> Inl e
           | Inr (s2, outs2) \<Rightarrow> Inr (s2, outs1 @ outs2)))"
proof (induction xs arbitrary: s)
  case Nil
  then show ?case by (simp split: sum.splits)
next
  case (Cons x xs)
  obtain d ev where "x = (d, ev)" by (cases x)
  with Cons.IH show ?case by (simp split: sum.splits prod.splits)
qed

lemma dragOver_ptype:
  "case dragOver cfg d ev t x y tgt (Some c) cache os of
     Inl e \<Rightarrow> False
   | Inr (os', cache', out) \<Rightarrow> list_all (\<lambda>p. ptype p = DragOver) (emitted out)"
  by (simp add: dragOver_def Let_def emitted_def createPayload_def split: option.splits prod.splits)

lemma step_dragover_dragging:
  assumes "dragging s"
  shows "\<exists>s' outs. step cfg d s (Ev_dragover t x y tgt) = Inr (s', outs) \<and> dragging s'
           \<and> list_all (\<lambda>p. ptype p = DragOver) outs"
proof -
  from assms obtain i c where i: "inners s = [i]" "\<not> startOpen i" "overOpen i" "endOpen i"
    and c: "currentPayload s = Some c"
    by (auto simp: dragging_def split: list.splits)
  from dragOver_ptype [where cfg = cfg and d = d and ev = "Ev_dragover t x y tgt" and t = t
      and x = x and y = y and tgt = tgt and c = c and cache = "rects s" and os = "over i"]
  obtain os' cache' out
    where r: "dragOver cfg d (Ev_dragover t x y tgt) t x y tgt (Some c) (rects s) (over i)
                = Inr (os', cache', out)"
      and q: "list_all (\<lambda>p. ptype p = DragOver) (emitted out)"
    by (auto split: sum.splits)
  then show ?thesis
    using i c
    by (cases out)
       (simp_all add: overInner_def afterDelivery_def subscribed_def dragging_def storePayload_def
          emitted_def)
qed

lemma run_dragovers_dragging:
  assumes "dragging s" and "list_all (\<lambda>de. isDragover (snd de)) evs"
  shows "\<exists>s' outs. run cfg s evs = Inr (s', outs) \<and> dragging s'
           \<and> list_all (\<lambda>p. ptype p = DragOver) outs"
  using assms
proof (induction evs arbitrary: s)
  case Nil
  then show ?case by simp
next
  case (Cons de rest)
  obtain d ev where de: "de = (d, ev)" by (cases de)
  with Cons.prems(2) obtain t x y tgt where ev: "ev = Ev_dragover t x y tgt"
    by (cases ev) (simp_all add: isDragover_def)
  from step_dragover_dragging [OF Cons.prems(1), of cfg d t x y tgt]
  obtain s1 outs1 where s1: "step cfg d s ev = Inr (s1, outs1)" and d1: "dragging s1"
    and q1: "list_all (\<lambda>p. ptype p = DragOver) outs1"
    using ev by blast
  from Cons.prems(2) have "list_all (\<lambda>de. isDragover (snd de)) rest" by simp
  from Cons.IH [OF d1 this] obtain s2 outs2 where "run cfg s1 rest = Inr (s2, outs2)"
    and "dragging s2" and "list_all (\<lambda>p. ptype p = DragOver) outs2"
    by blast
  then show ?case using de s1 q1 by simp
qed

lemma step_dragend_dragging:
  assumes "dragging s"
  shows "\<exists>s' pE. step cfg d s Ev_dragend = Inr (s', [pE]) \<and> ptype pE = DragEnd \<and> inners s' = []"
proof -
  from assms obtain i c where i: "inners s = [i]" "\<not> startOpen i" "overOpen i" "endOpen i"
    and c: "currentPayload s = Some c"
    by (auto simp: dragging_def split: list.splits)
  then show ?thesis
    by (simp add: endInner_def dragEnd_def afterDelivery_def subscribed_def createPayload_def
          storePayload_def emitted_def)
qed

lemma single_attempt_lifecycle:
  assumes md: "mousedown cfg d0 (Ev_mousedown tgt) tgt = Some pB"
    and ds: "dragStart cfg d1 (Ev_dragstart tgt) tgt = Some pS"
    and overs: "list_all (\<lambda>de. isDragover (snd de)) overs"
  shows "\<exists>s outs pE.
           run cfg initial
             ((d0, Ev_mousedown tgt) # (d1, Ev_dragstart tgt) # overs @ [(d2, Ev_dragend)])
           = Inr (s, pB # pS # outs @ [pE])
           \<and> list_all (\<lambda>p. ptype p = DragOver) outs \<and> ptype pE = DragEnd \<and> inners s = []"
proof -
  let ?s2 = "\<lparr> currentPayload = Some pS, inners = [newInner\<lparr> startOpen := False \<rparr>], rects = [] \<rparr>"
  have st1: "step cfg d0 initial (Ev_mousedown tgt)
               = Inr (\<lparr> currentPayload = Some pB, inners = [newInner], rects = [] \<rparr>, [pB])"
    using md by (simp add: initial_def)
  have st2: "step cfg d1 \<lparr> currentPayload = Some pB, inners = [newInner], rects = [] \<rparr>
               (Ev_dragstart tgt) = Inr (?s2, [pS])"
    using ds
    by (simp add: startInner_def afterDelivery_def newInner_def subscribed_def flushRectCache_def
          storePayload_def emitted_def)
  have "dragging ?s2" by (simp add: dragging_def newInner_def)
  from run_dragovers_dragging [OF this overs, of cfg]
  obtain s3 outs where r3: "run cfg ?s2 overs = Inr (s3, outs)" and d3: "dragging s3"
    and q3: "list_all (\<lambda>p. ptype p = DragOver) outs"
    by blast
  from step_dragend_dragging [OF d3, of cfg d2]
  obtain s4 pE where st4: "step cfg d2 s3 Ev_dragend = Inr (s4, [pE])" and "ptype pE = DragEnd"
    and "inners s4 = []"
    by blast
  then show ?thesis
    using st1 st2 r3 q3 by (simp add: run_append)
qed

lemma aborted_attempt_alone:
  assumes "mousedown cfg d0 (Ev_mousedown tgt) tgt = Some pB"
  shows "\<exists>s. run cfg initial [(d0, Ev_mousedown tgt), (d1, Ev_mouseup)] = Inr (s, [pB])"
  using assms by simp

text \<open>
  C2. A pointer-down on item 1 is released without a drag (the attempt is aborted), then
  item 1 is pressed again and dragged: one native drag-start and one native drag-end.
  The inner subscription of the aborted attempt is still listening, so the stream
  carries two \<open>DragStart\<close> and two \<open>DragEnd\<close> payloads.
\<close>

theorem aborted_attempt_duplicates_lifecycle:
  "\<exists>s outs.
     run plainConfig initial
       [(page [], Ev_mousedown (HTMLElement 1)),
        (page [], Ev_mouseup),
        (page [], Ev_mousedown (HTMLElement 1)),
        (page [], Ev_dragstart (HTMLElement 1)),
        (page [], Ev_dragend)] = Inr (s, outs)
     \<and> map ptype outs
         = [BeforeDragStart, BeforeDragStart, DragStart, DragStart, DragEnd, DragEnd]"
  by (simp add: model_defs)

section \<open>The payload at drag end\<close>

lemma dragEnd_payload:
  "dragEnd cfg ev (Some c) =
     Inr (createPayload cfg DragEnd ev (dragElements c) (ScrollElement (pcontainer c))
            (dropElement c) (position c))"
  by (simp add: dragEnd_def)

text \<open>
  A drag released without any drag-over event: the \<open>DragEnd\<close> payload has the dragged
  set of the \<open>DragStart\<close> payload, no drop element and no position, and the container
  as its scroll container.
\<close>

lemma dragEnd_without_dragOver:
  assumes "mousedown cfg d0 (Ev_mousedown tgt) tgt = Some pB"
    and "dragStart cfg d1 (Ev_dragstart tgt) tgt = Some pS"
  shows "\<exists>s. run cfg initial
               [(d0, Ev_mousedown tgt), (d1, Ev_dragstart tgt), (d2, Ev_dragend)]
           = Inr (s, [pB, pS,
                      createPayload cfg DragEnd Ev_dragend (dragElements pS)
                        (ScrollElement (container cfg)) None None])"
  using assms
  by (auto simp: initial_def startInner_def endInner_def dragEnd_def afterDelivery_def newInner_def
        subscribed_def flushRectCache_def storePayload_def emitted_def dragStart_def
        createPayload_def split: option.splits)

text \<open>
  C5. Item 1 is dragged over item 2 and released. The payloads before the end carry the
  window as scroll container; the \<open>DragEnd\<close> payload carries the root container instead
  (line 284 passes \<open>currentPayload.container\<close>). The dragged set, the drop element and
  the position are those of the last payload.
\<close>

theorem dragEnd_scrollContainer_is_container:
  "\<exists>s outs.
     run plainConfig initial
       [(page [], Ev_mousedown (HTMLElement 1)),
        (page [], Ev_dragstart (HTMLElement 1)),
        (page [], Ev_dragover 0 5 10 (HTMLElement 2)),
        (page [], Ev_dragend)] = Inr (s, outs)
     \<and> map (\<lambda>p. (ptype p, scrollContainer p, dropElement p, position p)) outs
         = [(BeforeDragStart, Window, None, None),
            (DragStart, Window, None, None),
            (DragOver, Window, Some 2, Some Pos_before),
            (DragEnd, ScrollElement (container plainConfig), Some 2, Some Pos_before)]"
  by (simp add: model_defs)

section \<open>The dragged set during one drag\<close>

lemma dragOver_keeps_dragElements:
  "case dragOver cfg d ev t x y tgt (Some c) cache os of
     Inl e \<Rightarrow> False
   | Inr (os', cache', out) \<Rightarrow> list_all (\<lambda>p. dragElements p = dragElements c) (emitted out)"
  by (simp add: dragOver_def Let_def emitted_def createPayload_def split: option.splits prod.splits)

lemma overInner_keeps_dragElements:
  assumes "carries D cur"
  shows "\<exists>cache' i' out. overInner cfg d ev t x y tgt cur cache i = Inr (cache', i', out)
           \<and> carries D (storePayload out cur)
           \<and> list_all (\<lambda>p. dragElements p = D) (emitted out)"
proof -
  from assms obtain c where c: "cur = Some c" "dragElements c = D"
    by (auto simp: carries_def split: option.splits)
  show ?thesis
  proof (cases "overOpen i")
    case False
    then show ?thesis using assms by (simp add: overInner_def storePayload_def emitted_def)
  next
    case True
    from dragOver_keeps_dragElements
      [where cfg = cfg and d = d and ev = ev and t = t and x = x and y = y and tgt = tgt
         and c = c and cache = cache and os = "over i"]
    obtain os' cache' out
      where r: "dragOver cfg d ev t x y tgt (Some c) cache (over i) = Inr (os', cache', out)"
        and q: "list_all (\<lambda>p. dragElements p = D) (emitted out)"
      using c(2) by (auto split: sum.splits)
    from q have "carries D (storePayload out cur)"
      using c by (cases out) (simp_all add: carries_def storePayload_def emitted_def)
    then show ?thesis
      using True r q c by (simp add: overInner_def)
  qed
qed

lemma endInner_keeps_dragElements:
  assumes "carries D cur"
  shows "\<exists>cache' i' out. endInner cfg ev cur cache i = Inr (cache', i', out)
           \<and> carries D (storePayload out cur)
           \<and> list_all (\<lambda>p. dragElements p = D) (emitted out)"
proof -
  from assms obtain c where c: "cur = Some c" "dragElements c = D"
    by (auto simp: carries_def split: option.splits)
  then show ?thesis
    by (simp add: endInner_def dragEnd_payload createPayload_def storePayload_def emitted_def
          carries_def)
qed

lemma step_duringDrag_keeps_dragElements:
  assumes "carries D (currentPayload s)" and "duringDrag ev"
  shows "\<exists>s' outs. step cfg d s ev = Inr (s', outs) \<and> carries D (currentPayload s')
           \<and> list_all (\<lambda>p. dragElements p = D) outs"
proof (cases ev)
  case (Ev_mousedown tgt)
  with assms(2) show ?thesis by (simp add: duringDrag_def)
next
  case Ev_mouseup
  with assms(1) show ?thesis by simp
next
  case (Ev_dragstart tgt)
  with assms(2) show ?thesis by (simp add: duringDrag_def)
next
  case (Ev_dragover t x y tgt)
  from deliver_invariant [where I = "\<lambda>cur cache. carries D cur"
      and Q = "\<lambda>p. dragElements p = D"
      and h = "overInner cfg d ev t x y tgt", OF overInner_keeps_dragElements assms(1)]
  obtain cur' cache' is' outs
    where "deliver (overInner cfg d ev t x y tgt) (currentPayload s) (rects s) (inners s)
             = Inr (cur', cache', is', outs)"
      and "carries D cur'" and "list_all (\<lambda>p. dragElements p = D) outs"
    by blast
  then show ?thesis using Ev_dragover by (simp add: afterDelivery_def)
next
  case Ev_dragend
  from deliver_invariant [where I = "\<lambda>cur cache. carries D cur"
      and Q = "\<lambda>p. dragElements p = D"
      and h = "endInner cfg ev", OF endInner_keeps_dragElements assms(1)]
  obtain cur' cache' is' outs
    where "deliver (endInner cfg ev) (currentPayload s) (rects s) (inners s)
             = Inr (cur', cache', is', outs)"
      and "carries D cur'" and "list_all (\<lambda>p. dragElements p = D) outs"
    by blast
  then show ?thesis using Ev_dragend by (simp add: afterDelivery_def)
qed

lemma run_duringDrag_keeps_dragElements:
  assumes "carries D (currentPayload s)" and "list_all (\<lambda>de. duringDrag (snd de)) evs"
  shows "\<exists>s' outs. run cfg s evs = Inr (s', outs) \<and> carries D (currentPayload s')
           \<and> list_all (\<lambda>p. dragElements p = D) outs"
  using assms
proof (induction evs arbitrary: s)
  case Nil
  then show ?case by simp
next
  case (Cons de rest)
  obtain d ev where de: "de = (d, ev)" by (cases de)
  with Cons.prems have "duringDrag ev" by simp
  from step_duringDrag_keeps_dragElements [OF Cons.prems(1) this, of cfg d]
  obtain s1 outs1 where s1: "step cfg d s ev = Inr (s1, outs1)"
    and c1: "carries D (currentPayload s1)" and q1: "list_all (\<lambda>p. dragElements p = D) outs1"
    by blast
  from Cons.prems(2) have "list_all (\<lambda>de. duringDrag (snd de)) rest" by simp
  from Cons.IH [OF c1 this] obtain s2 outs2 where "run cfg s1 rest = Inr (s2, outs2)"
    and "carries D (currentPayload s2)" and "list_all (\<lambda>p. dragElements p = D) outs2"
    by blast
  then show ?case using de s1 q1 by simp
qed

lemma startInner_emits_dragStart:
  "\<exists>cache' i' out. startInner cfg d ev tgt cur cache i = Inr (cache', i', out)
     \<and> True \<and> list_all (\<lambda>p. dragStart cfg d ev tgt = Some p) (emitted out)"
  by (cases "dragStart cfg d ev tgt") (simp_all add: startInner_def emitted_def)

lemma step_dragstart_outs:
  assumes "step cfg d s (Ev_dragstart tgt) = Inr (s1, outs1)"
  shows "list_all (\<lambda>p. dragStart cfg d (Ev_dragstart tgt) tgt = Some p) outs1
         \<and> currentPayload s1 = (if outs1 = [] then currentPayload s else Some (last outs1))"
proof -
  let ?h = "startInner cfg d (Ev_dragstart tgt) tgt"
  from deliver_invariant [where I = "\<lambda>cur cache. True"
      and Q = "\<lambda>p. dragStart cfg d (Ev_dragstart tgt) tgt = Some p" and h = ?h,
      OF startInner_emits_dragStart TrueI]
  obtain cur' cache' is' outs
    where r: "deliver ?h (currentPayload s) (rects s) (inners s) = Inr (cur', cache', is', outs)"
      and q: "list_all (\<lambda>p. dragStart cfg d (Ev_dragstart tgt) tgt = Some p) outs"
    by blast
  from deliver_slot [OF r] have "cur' = (if outs = [] then currentPayload s else Some (last outs))" .
  then show ?thesis using assms r q by (auto simp: afterDelivery_def)
qed

text \<open>
  C6. Let a native drag-start, handled in any engine state, emit a \<open>DragStart\<close> payload
  \<open>p\<close>. Then \<open>p\<close> carries the dragged set computed at that moment, and whatever
  drag-over, pointer-up and drag-end events follow, on whatever pages (the selection
  provider may answer differently on each), the engine handles them without a fault and
  every payload of the drag, from the \<open>DragStart\<close> payloads on, carries the dragged set
  of \<open>p\<close>.
\<close>

theorem dragElements_fixed_during_drag:
  assumes "step cfg d0 s (Ev_dragstart tgt) = Inr (s1, outs1)"
    and "p \<in> set outs1"
    and "list_all (\<lambda>de. duringDrag (snd de)) evs"
  shows "\<exists>el s2 outs2.
           closestOf d0 tgt (dragElementSelector cfg) = Some el
           \<and> dragElements p = getCombinedSelectedElements cfg d0 el
           \<and> run cfg s1 evs = Inr (s2, outs2)
           \<and> list_all (\<lambda>q. dragElements q = dragElements p) (outs1 @ outs2)"
proof -
  from step_dragstart_outs [OF assms(1)]
  have all: "list_all (\<lambda>q. dragStart cfg d0 (Ev_dragstart tgt) tgt = Some q) outs1"
    and slot: "currentPayload s1 = (if outs1 = [] then currentPayload s else Some (last outs1))"
    by simp_all
  from all assms(2) have p: "dragStart cfg d0 (Ev_dragstart tgt) tgt = Some p"
    by (simp add: list_all_iff)
  with all have same: "list_all (\<lambda>q. dragElements q = dragElements p) outs1"
    by (simp add: list_all_iff)
  from p obtain el where el: "closestOf d0 tgt (dragElementSelector cfg) = Some el"
    and pel: "dragElements p = getCombinedSelectedElements cfg d0 el"
    by (auto simp: dragStart_def createPayload_def split: option.splits)
  from assms(2) have "outs1 \<noteq> []" by auto
  then have "last outs1 \<in> set outs1" by simp
  with all p have "last outs1 = p" by (simp add: list_all_iff)
  with slot \<open>outs1 \<noteq> []\<close> have "currentPayload s1 = Some p" by simp
  then have "carries (dragElements p) (currentPayload s1)" by (simp add: carries_def)
  from run_duringDrag_keeps_dragElements [OF this assms(3), of cfg]
  obtain s2 outs2 where "run cfg s1 evs = Inr (s2, outs2)"
    and "list_all (\<lambda>q. dragElements q = dragElements p) outs2"
    by blast
  with el pel same show ?thesis by simp
qed

text \<open>
  The theorem at a drag of item 2 out of the selection \<open>[1, 2]\<close>; while the drag is
  under way the selection changes to \<open>[3]\<close>.
\<close>

theorem dragElements_fixed_during_drag_witness:
  "\<exists>s0 o0 s1 p s2 outs2.
     run selectionConfig initial [(page [1, 2], Ev_mousedown (HTMLElement 2))] = Inr (s0, o0)
     \<and> step selectionConfig (page [1, 2]) s0 (Ev_dragstart (HTMLElement 2)) = Inr (s1, [p])
     \<and> dragElements p = [1, 2]
     \<and> selectedItems (page [3]) = [3]
     \<and> run selectionConfig s1
           [(page [3], Ev_dragover 0 5 10 (HTMLElement 3)),
            (page [3], Ev_dragover 50 5 80 (HTMLElement 3)),
            (page [], Ev_dragend)] = Inr (s2, outs2)
     \<and> list_all (\<lambda>q. dragElements q = [1, 2]) ([p] @ outs2)"
proof -
  let ?evs = "[(page [3], Ev_dragover 0 5 10 (HTMLElement 3)),
               (page [3], Ev_dragover 50 5 80 (HTMLElement 3)),
               (page [], Ev_dragend)]"
  have "\<exists>s0 o0 s1 p.
          run selectionConfig initial [(page [1, 2], Ev_mousedown (HTMLElement 2))] = Inr (s0, o0)
          \<and> step selectionConfig (page [1, 2]) s0 (Ev_dragstart (HTMLElement 2)) = Inr (s1, [p])
          \<and> dragElements p = [1, 2]"
    by (simp add: model_defs)
  then obtain s0 o0 s1 p
    where r0: "run selectionConfig initial [(page [1, 2], Ev_mousedown (HTMLElement 2))] = Inr (s0, o0)"
      and r1: "step selectionConfig (page [1, 2]) s0 (Ev_dragstart (HTMLElement 2)) = Inr (s1, [p])"
      and dp: "dragElements p = [1, 2]"
    by blast
  have mem: "p \<in> set [p]" by simp
  have evs: "list_all (\<lambda>de. duringDrag (snd de)) ?evs" by (simp add: duringDrag_def)
  from dragElements_fixed_during_drag [OF r1 mem evs]
  obtain s2 outs2 where "run selectionConfig s1 ?evs = Inr (s2, outs2)"
    and "list_all (\<lambda>q. dragElements q = dragElements p) ([p] @ outs2)"
    by blast
  moreover have "selectedItems (page [3]) = [3]" by (simp add: model_defs)
  ultimately show ?thesis using r0 r1 dp by auto
qed

section \<open>Drag-over events that are discarded\<close>

text \<open>A second query for the same element is answered from the cache and leaves it as it is.\<close>

lemma getRectCached_again:
  "getRectCached d (snd (getRectCached d cache el idFn k)) el idFn k
     = (fst (getRectCached d cache el idFn k), snd (getRectCached d cache el idFn k))"
  by (simp add: getRectCached_def split: option.splits)

lemma calcPositionLocal_again:
  "calcPositionLocal cfg d (snd (calcPositionLocal cfg d cache e g off)) e g off
     = calcPositionLocal cfg d cache e g off"
proof -
  obtain r c1 where r: "getRectCached d cache e (getElementId cfg) (container cfg) = (r, c1)"
    by (cases "getRectCached d cache e (getElementId cfg) (container cfg)")
  with getRectCached_again [of d cache e "getElementId cfg" "container cfg"]
  have "getRectCached d c1 e (getElementId cfg) (container cfg) = (r, c1)" by simp
  with r show ?thesis by (simp add: calcPositionLocal_def Let_def)
qed

lemma dragOver_no_drop_element:
  assumes "closestOf d tgt (dropElementSelector cfg) = None"
  shows "\<exists>os'. dragOver cfg d ev t x y tgt cur cache os = Inr (os', cache, None)"
  using assms by (simp add: dragOver_def Let_def)

lemma dragOver_rejected:
  assumes "closestOf d tgt (dropElementSelector cfg) = Some e"
    and "fst (calcPositionLocal cfg d cache e (firstElement (dragElements c)) (axisOffset cfg x y))
           = Pos_none
         \<or> \<not> contains d (container cfg) e"
  shows "\<exists>os' cache'. dragOver cfg d ev t x y tgt (Some c) cache os = Inr (os', cache', None)
           \<and> (cache' = cache
              \<or> cache' = snd (calcPositionLocal cfg d cache e (firstElement (dragElements c))
                               (axisOffset cfg x y)))"
  using assms by (auto simp: dragOver_def Let_def split: prod.splits)

lemma list_all_False: "list_all (\<lambda>p. False) xs \<Longrightarrow> xs = []"
  by (cases xs) simp_all

lemma overInner_no_drop_element:
  assumes "closestOf d tgt (dropElementSelector cfg) = None"
    and "cur = cur0 \<and> cache = c0"
  shows "\<exists>cache' i' out. overInner cfg d ev t x y tgt cur cache i = Inr (cache', i', out)
           \<and> (storePayload out cur = cur0 \<and> cache' = c0)
           \<and> list_all (\<lambda>p. False) (emitted out)"
proof (cases "overOpen i")
  case False
  then show ?thesis using assms(2) by (simp add: overInner_def storePayload_def emitted_def)
next
  case True
  from dragOver_no_drop_element [OF assms(1)]
  obtain os' where "dragOver cfg d ev t x y tgt cur cache (over i) = Inr (os', cache, None)"
    by blast
  then show ?thesis
    using True assms(2) by (simp add: overInner_def storePayload_def emitted_def)
qed

lemma overInner_rejected:
  assumes drop: "closestOf d tgt (dropElementSelector cfg) = Some e"
    and bad: "fst (calcPositionLocal cfg d c0 e (firstElement (dragElements c)) (axisOffset cfg x y))
                = Pos_none
              \<or> \<not> contains d (container cfg) e"
    and inv: "cur = Some c
              \<and> (cache = c0
                 \<or> cache = snd (calcPositionLocal cfg d c0 e (firstElement (dragElements c))
                                  (axisOffset cfg x y)))"
  shows "\<exists>cache' i' out. overInner cfg d ev t x y tgt cur cache i = Inr (cache', i', out)
           \<and> (storePayload out cur = Some c
                \<and> (cache' = c0
                   \<or> cache' = snd (calcPositionLocal cfg d c0 e (firstElement (dragElements c))
                                     (axisOffset cfg x y))))
           \<and> list_all (\<lambda>p. False) (emitted out)"
proof (cases "overOpen i")
  case False
  then show ?thesis using inv by (simp add: overInner_def storePayload_def emitted_def)
next
  case True
  let ?c1 = "snd (calcPositionLocal cfg d c0 e (firstElement (dragElements c)) (axisOffset cfg x y))"
  from inv have cur: "cur = Some c" and cache: "cache = c0 \<or> cache = ?c1" by simp_all
  from cache have same: "calcPositionLocal cfg d cache e (firstElement (dragElements c)) (axisOffset cfg x y)
                  = calcPositionLocal cfg d c0 e (firstElement (dragElements c)) (axisOffset cfg x y)"
    using calcPositionLocal_again [of cfg d c0 e "firstElement (dragElements c)" "axisOffset cfg x y"]
    by auto
  with bad have bad': "fst (calcPositionLocal cfg d cache e (firstElement (dragElements c))
                              (axisOffset cfg x y)) = Pos_none
                       \<or> \<not> contains d (container cfg) e"
    by simp
  from dragOver_rejected [OF drop bad', of ev t "over i"]
  obtain os' cache' where r: "dragOver cfg d ev t x y tgt (Some c) cache (over i) = Inr (os', cache', None)"
    and c': "cache' = cache \<or> cache' = ?c1"
    using same by auto
  from c' cache have "cache' = c0 \<or> cache' = ?c1" by auto
  then show ?thesis
    using True r cur by (simp add: overInner_def storePayload_def emitted_def)
qed

text \<open>
  C8. A drag-over event handled in any engine state emits nothing, and raises nothing,
  when no element matching the drop-element selector is found from its target, or when
  one is found and the position computed for it (from the slot's first dragged element,
  the axis offset and the cached rectangle) is \<open>none\<close>, or when it is found and the
  container does not contain it. The slot keeps its payload.
\<close>

theorem dragOver_discarded:
  assumes "closestOf d tgt (dropElementSelector cfg) = None
           \<or> (\<exists>c e. currentPayload s = Some c
                 \<and> closestOf d tgt (dropElementSelector cfg) = Some e
                 \<and> (fst (calcPositionLocal cfg d (rects s) e (firstElement (dragElements c))
                           (axisOffset cfg x y)) = Pos_none
                      \<or> \<not> contains d (container cfg) e))"
  shows "\<exists>s'. step cfg d s (Ev_dragover t x y tgt) = Inr (s', [])
           \<and> currentPayload s' = currentPayload s"
proof -
  let ?ev = "Ev_dragover t x y tgt"
  let ?h = "overInner cfg d ?ev t x y tgt"
  from assms consider
      (none) "closestOf d tgt (dropElementSelector cfg) = None"
    | (rejected) c e where "currentPayload s = Some c"
        and "closestOf d tgt (dropElementSelector cfg) = Some e"
        and "fst (calcPositionLocal cfg d (rects s) e (firstElement (dragElements c))
                   (axisOffset cfg x y)) = Pos_none
             \<or> \<not> contains d (container cfg) e"
    by auto
  then show ?thesis
  proof cases
    case none
    from deliver_invariant [where h = ?h
        and I = "\<lambda>cur cache. cur = currentPayload s \<and> cache = rects s"
        and Q = "\<lambda>p. False", OF overInner_no_drop_element [OF none]]
    obtain cur' cache' is' outs
      where "deliver ?h (currentPayload s) (rects s) (inners s) = Inr (cur', cache', is', outs)"
        and "cur' = currentPayload s" and "list_all (\<lambda>p. False) outs"
      by blast
    then show ?thesis by (simp add: afterDelivery_def list_all_False)
  next
    case rejected
    note cur = rejected(1) and drop = rejected(2) and bad = rejected(3)
    let ?c1 = "snd (calcPositionLocal cfg d (rects s) e (firstElement (dragElements c))
                      (axisOffset cfg x y))"
    have inv0: "currentPayload s = Some c \<and> (rects s = rects s \<or> rects s = ?c1)"
      using cur by simp
    have "\<exists>cur' cache' subs' outs.
            deliver ?h (currentPayload s) (rects s) (inners s) = Inr (cur', cache', subs', outs)
            \<and> (cur' = Some c \<and> (cache' = rects s \<or> cache' = ?c1))
            \<and> list_all (\<lambda>p. False) outs"
      by (rule deliver_invariant [where I = "\<lambda>cur cache. cur = Some c \<and> (cache = rects s \<or> cache = ?c1)"])
         (rule overInner_rejected [OF drop bad], assumption, rule inv0)
    then obtain cur' cache' is' outs
      where "deliver ?h (currentPayload s) (rects s) (inners s) = Inr (cur', cache', is', outs)"
        and "cur' = Some c" and "list_all (\<lambda>p. False) outs"
      by blast
    then show ?thesis using cur by (simp add: afterDelivery_def list_all_False)
  qed
qed

text \<open>
  The theorem on the concrete page, once for each reason: over the paragraph 7, which
  has no \<open>data-id\<close>; item 1 over itself, where the position is \<open>none\<close>; and, with the
  list as container, over item 3 outside the list.
\<close>

theorem dragOver_discarded_witness:
  "\<exists>s0 o0 c s1 o1 c1.
     run plainConfig initial
       [(page [], Ev_mousedown (HTMLElement 1)), (page [], Ev_dragstart (HTMLElement 1))]
       = Inr (s0, o0)
     \<and> currentPayload s0 = Some c
     \<and> closestOf (page []) (HTMLElement 7) (dropElementSelector plainConfig) = None
     \<and> (\<exists>s'. step plainConfig (page []) s0 (Ev_dragover 0 5 10 (HTMLElement 7)) = Inr (s', []))
     \<and> closestOf (page []) (HTMLElement 1) (dropElementSelector plainConfig) = Some 1
     \<and> fst (calcPositionLocal plainConfig (page []) (rects s0) 1 (firstElement (dragElements c))
              (axisOffset plainConfig 5 10)) = Pos_none
     \<and> (\<exists>s'. step plainConfig (page []) s0 (Ev_dragover 0 5 10 (HTMLElement 1)) = Inr (s', []))
     \<and> run listConfig initial
         [(page [], Ev_mousedown (HTMLElement 1)), (page [], Ev_dragstart (HTMLElement 1))]
         = Inr (s1, o1)
     \<and> currentPayload s1 = Some c1
     \<and> closestOf (page []) (HTMLElement 3) (dropElementSelector listConfig) = Some 3
     \<and> \<not> contains (page []) (container listConfig) 3
     \<and> (\<exists>s'. step listConfig (page []) s1 (Ev_dragover 0 5 10 (HTMLElement 3)) = Inr (s', []))"
proof -
  have "\<exists>s0 o0 c.
          run plainConfig initial
            [(page [], Ev_mousedown (HTMLElement 1)), (page [], Ev_dragstart (HTMLElement 1))]
            = Inr (s0, o0)
          \<and> currentPayload s0 = Some c \<and> dragElements c = [1] \<and> rects s0 = []"
    by (simp add: model_defs)
  then obtain s0 o0 c
    where r0: "run plainConfig initial
                 [(page [], Ev_mousedown (HTMLElement 1)), (page [], Ev_dragstart (HTMLElement 1))]
                 = Inr (s0, o0)"
      and c: "currentPayload s0 = Some c" "dragElements c = [1]" "rects s0 = []"
    by blast
  have "\<exists>s1 o1 c1.
          run listConfig initial
            [(page [], Ev_mousedown (HTMLElement 1)), (page [], Ev_dragstart (HTMLElement 1))]
            = Inr (s1, o1)
          \<and> currentPayload s1 = Some c1"
    by (simp add: model_defs)
  then obtain s1 o1 c1
    where r1: "run listConfig initial
                 [(page [], Ev_mousedown (HTMLElement 1)), (page [], Ev_dragstart (HTMLElement 1))]
                 = Inr (s1, o1)"
      and c1: "currentPayload s1 = Some c1"
    by blast
  have none: "closestOf (page []) (HTMLElement 7) (dropElementSelector plainConfig) = None"
    by (simp add: model_defs)
  have self: "closestOf (page []) (HTMLElement 1) (dropElementSelector plainConfig) = Some 1"
    by (simp add: model_defs)
  have pos: "fst (calcPositionLocal plainConfig (page []) (rects s0) 1
                    (firstElement (dragElements c)) (axisOffset plainConfig 5 10)) = Pos_none"
    using c by (simp add: model_defs)
  have out: "closestOf (page []) (HTMLElement 3) (dropElementSelector listConfig) = Some 3"
    by (simp add: model_defs)
  have notin: "\<not> contains (page []) (container listConfig) 3"
    by (simp add: model_defs)
  have a: "\<exists>s'. step plainConfig (page []) s0 (Ev_dragover 0 5 10 (HTMLElement 7)) = Inr (s', [])"
    using dragOver_discarded [of "page []" "HTMLElement 7" plainConfig s0 5 10 0] none by blast
  have b: "\<exists>s'. step plainConfig (page []) s0 (Ev_dragover 0 5 10 (HTMLElement 1)) = Inr (s', [])"
    using dragOver_discarded [of "page []" "HTMLElement 1" plainConfig s0 5 10 0] self pos c(1)
    by blast
  have e: "\<exists>s'. step listConfig (page []) s1 (Ev_dragover 0 5 10 (HTMLElement 3)) = Inr (s', [])"
    using dragOver_discarded [of "page []" "HTMLElement 3" listConfig s1 5 10 0] out notin c1
    by blast
  show ?thesis
    using r0 c(1) none a self pos b r1 c1 out notin e by blast
qed

section \<open>The self-drop check\<close>

text \<open>The position is \<open>none\<close> when the drop element is the first of the dragged elements.\<close>

lemma calcPositionLocal_self:
  "fst (calcPositionLocal cfg d cache e (Some e) offset) = Pos_none"
  by (simp add: calcPositionLocal_def calcPosition_def Let_def split: prod.splits)

text \<open>
  C7. Items 1 and 2 are selected and the drag starts on item 2, the primary dragged
  element. The dragged set is \<open>[1, 2]\<close>, the self-drop check of lines 110 and 117
  compares the drop element with \<open>dragElements[0]\<close>, which is item 1, and dragging over
  item 2 itself emits a \<open>DragOver\<close> payload whose drop element is item 2.
\<close>

theorem self_drop_in_selection_emits:
  "\<exists>s outs.
     run selectionConfig initial
       [(page [1, 2], Ev_mousedown (HTMLElement 2)),
        (page [1, 2], Ev_dragstart (HTMLElement 2)),
        (page [1, 2], Ev_dragover 0 5 10 (HTMLElement 2))] = Inr (s, outs)
     \<and> map (\<lambda>p. (ptype p, dragElements p, dropElement p, position p)) outs
         = [(BeforeDragStart, [2], None, None),
            (DragStart, [1, 2], None, None),
            (DragOver, [1, 2], Some 2, Some Pos_before)]"
  by (simp add: model_defs)

section \<open>Deduplication of drag-over events\<close>

lemma dragOver_emits:
  assumes "\<not> throttled os t"
    and "prevOffset os = None" and "prevPosDrop os = None"
    and "closestOf d tgt (dropElementSelector cfg) = Some e"
    and "calcPositionLocal cfg d cache e (firstElement (dragElements c)) (axisOffset cfg x y)
           = (pos, cache')"
    and "pos \<noteq> Pos_none" and "contains d (container cfg) e"
  shows "\<exists>os'. dragOver cfg d ev t x y tgt (Some c) cache os
           = Inr (os', cache',
                  Some (createPayload cfg DragOver ev (dragElements c)
                          (getClosestScrollContainer d e) (Some e) (Some pos)))
           \<and> prevOffset os' = Some (axisOffset cfg x y) \<and> prevPosDrop os' = Some (pos, e)"
  using assms by (simp add: dragOver_def Let_def)

lemma dragOver_unchanged_offset:
  assumes "prevOffset os = Some (axisOffset cfg x y)"
  shows "\<exists>os'. dragOver cfg d ev t x y tgt cur cache os = Inr (os', cache, None)
           \<and> prevOffset os' = prevOffset os \<and> prevPosDrop os' = prevPosDrop os"
  using assms by (simp add: dragOver_def Let_def)

lemma dragOver_unchanged_pair:
  assumes "closestOf d tgt (dropElementSelector cfg) = Some e"
    and "prevPosDrop os
           = Some (fst (calcPositionLocal cfg d cache e (firstElement (dragElements c))
                          (axisOffset cfg x y)), e)"
  shows "\<exists>os' cache'. dragOver cfg d ev t x y tgt (Some c) cache os = Inr (os', cache', None)"
  using assms by (simp add: dragOver_def Let_def split: prod.splits)

lemma step_dragover_single:
  assumes "inners s = [i]" and "overOpen i"
    and "dragOver cfg d (Ev_dragover t x y tgt) t x y tgt (currentPayload s) (rects s) (over i)
           = Inr (os', cache', out)"
  shows "step cfg d s (Ev_dragover t x y tgt)
           = Inr (\<lparr> currentPayload = storePayload out (currentPayload s),
                    inners = [i\<lparr> over := os' \<rparr>], rects = cache' \<rparr>, emitted out)"
  using assms by (simp add: overInner_def afterDelivery_def subscribed_def)

text \<open>
  While this is the only attempt the engine has seen: an element is pressed and
  dragged, and the first drag-over event finds the drop element \<open>b\<close> inside the container
  at an offset that gives \<open>before\<close>. A second drag-over event with the same axis offset,
  whatever its target, page and time, emits nothing and leaves the rectangle cache as
  the first event left it: the stream holds one \<open>DragOver\<close> payload, for \<open>b\<close>. A further
  drag-over event that resolves to \<open>b\<close> and \<open>before\<close> again, at whatever offset, emits
  nothing either.
\<close>

lemma deduplicated_on_fresh_engine:
  assumes md: "mousedown cfg d0 (Ev_mousedown tgtA) tgtA = Some pB"
    and ds: "dragStart cfg d1 (Ev_dragstart tgtA) tgtA = Some pS"
    and drop1: "closestOf d2 tgtB (dropElementSelector cfg) = Some b"
    and pos1: "calcPositionLocal cfg d2 [] b (firstElement (dragElements pS)) (axisOffset cfg x1 y1)
                 = (Pos_before, cache1)"
    and inside: "contains d2 (container cfg) b"
    and same_offset: "axisOffset cfg x2 y2 = axisOffset cfg x1 y1"
    and drop3: "closestOf d4 tgt3 (dropElementSelector cfg) = Some b"
    and pos3: "fst (calcPositionLocal cfg d4 cache1 b (firstElement (dragElements pS))
                      (axisOffset cfg x3 y3)) = Pos_before"
  shows "\<exists>s s'.
           run cfg initial
             [(d0, Ev_mousedown tgtA),
              (d1, Ev_dragstart tgtA),
              (d2, Ev_dragover t1 x1 y1 tgtB),
              (d3, Ev_dragover t2 x2 y2 tgt2)]
           = Inr (s, [pB, pS,
                      createPayload cfg DragOver (Ev_dragover t1 x1 y1 tgtB) (dragElements pS)
                        (getClosestScrollContainer d2 b) (Some b) (Some Pos_before)])
           \<and> rects s = cache1
           \<and> step cfg d4 s (Ev_dragover t3 x3 y3 tgt3) = Inr (s', [])"
proof -
  let ?i = "newInner\<lparr> startOpen := False \<rparr>"
  let ?pO = "createPayload cfg DragOver (Ev_dragover t1 x1 y1 tgtB) (dragElements pS)
               (getClosestScrollContainer d2 b) (Some b) (Some Pos_before)"
  let ?s2 = "\<lparr> currentPayload = Some pS, inners = [?i], rects = [] \<rparr>"
  have open_i: "overOpen ?i" and over_i: "over ?i = freshOver"
    by (simp_all add: newInner_def)
  have st1: "step cfg d0 initial (Ev_mousedown tgtA)
               = Inr (\<lparr> currentPayload = Some pB, inners = [newInner], rects = [] \<rparr>, [pB])"
    using md by (simp add: initial_def)
  have st2: "step cfg d1 \<lparr> currentPayload = Some pB, inners = [newInner], rects = [] \<rparr>
               (Ev_dragstart tgtA) = Inr (?s2, [pS])"
    using ds
    by (simp add: startInner_def afterDelivery_def newInner_def subscribed_def flushRectCache_def
          storePayload_def emitted_def)
  \<comment> \<open>the first drag-over event emits\<close>
  from dragOver_emits [of freshOver t1 d2 tgtB cfg b "[]" pS x1 y1 Pos_before cache1
      "Ev_dragover t1 x1 y1 tgtB"] drop1 pos1 inside
  obtain os1 where o1: "dragOver cfg d2 (Ev_dragover t1 x1 y1 tgtB) t1 x1 y1 tgtB (Some pS) []
                          freshOver = Inr (os1, cache1, Some ?pO)"
    and po1: "prevOffset os1 = Some (axisOffset cfg x1 y1)"
    and pp1: "prevPosDrop os1 = Some (Pos_before, b)"
    by (auto simp: freshOver_def throttled_def)
  let ?s3 = "\<lparr> currentPayload = Some ?pO, inners = [?i\<lparr> over := os1 \<rparr>], rects = cache1 \<rparr>"
  have st3: "step cfg d2 ?s2 (Ev_dragover t1 x1 y1 tgtB) = Inr (?s3, [?pO])"
    using step_dragover_single [of ?s2 ?i cfg d2 t1 x1 y1 tgtB os1 cache1 "Some ?pO"] o1 open_i over_i
    by (simp add: storePayload_def emitted_def)
  \<comment> \<open>the second, at the same offset, is skipped with the cache untouched\<close>
  from dragOver_unchanged_offset [of os1 cfg x2 y2 d3 "Ev_dragover t2 x2 y2 tgt2" t2 tgt2
      "Some ?pO" cache1] po1 same_offset
  obtain os2 where o2: "dragOver cfg d3 (Ev_dragover t2 x2 y2 tgt2) t2 x2 y2 tgt2 (Some ?pO) cache1
                          os1 = Inr (os2, cache1, None)"
    and pp2: "prevPosDrop os2 = Some (Pos_before, b)"
    using pp1 by auto
  let ?s4 = "\<lparr> currentPayload = Some ?pO, inners = [?i\<lparr> over := os2 \<rparr>], rects = cache1 \<rparr>"
  have st4: "step cfg d3 ?s3 (Ev_dragover t2 x2 y2 tgt2) = Inr (?s4, [])"
    using step_dragover_single [of ?s3 "?i\<lparr> over := os1 \<rparr>" cfg d3 t2 x2 y2 tgt2 os2 cache1 None]
      o2 open_i
    by (simp add: storePayload_def emitted_def)
  \<comment> \<open>the third resolves to the same position and drop element and is skipped\<close>
  have dO: "dragElements ?pO = dragElements pS" by (simp add: createPayload_def)
  from dragOver_unchanged_pair [of d4 tgt3 cfg b os2 cache1 ?pO x3 y3 "Ev_dragover t3 x3 y3 tgt3" t3]
    drop3 pos3 pp2 dO
  obtain os3 cache3
    where o3: "dragOver cfg d4 (Ev_dragover t3 x3 y3 tgt3) t3 x3 y3 tgt3 (Some ?pO) cache1 os2
                 = Inr (os3, cache3, None)"
    by auto
  let ?s5 = "\<lparr> currentPayload = Some ?pO, inners = [?i\<lparr> over := os3 \<rparr>], rects = cache3 \<rparr>"
  have st5: "step cfg d4 ?s4 (Ev_dragover t3 x3 y3 tgt3) = Inr (?s5, [])"
    using step_dragover_single [of ?s4 "?i\<lparr> over := os2 \<rparr>" cfg d4 t3 x3 y3 tgt3 os3 cache3 None]
      o3 open_i
    by (simp add: storePayload_def emitted_def)
  show ?thesis
    using st1 st2 st3 st4 st5 by simp
qed

text \<open>
  The same on the concrete page: item 1 is dragged over item 2 at \<open>offsetY\<close> 10, then
  again at \<open>offsetY\<close> 10 (only \<open>offsetX\<close> differs), then at \<open>offsetY\<close> 20, still in the
  upper half of item 2.
\<close>

lemma deduplicated_on_fresh_engine_example:
  "mousedown plainConfig (page []) (Ev_mousedown (HTMLElement 1)) (HTMLElement 1)
     = Some (createPayload plainConfig BeforeDragStart (Ev_mousedown (HTMLElement 1)) [1] Window
               None None)
   \<and> dragStart plainConfig (page []) (Ev_dragstart (HTMLElement 1)) (HTMLElement 1)
     = Some (createPayload plainConfig DragStart (Ev_dragstart (HTMLElement 1)) [1] Window
               None None)
   \<and> closestOf (page []) (HTMLElement 2) (dropElementSelector plainConfig) = Some 2
   \<and> calcPositionLocal plainConfig (page []) [] 2 (Some 1) (axisOffset plainConfig 5 10)
     = (Pos_before, [(Some ''b'', \<lparr> height = 100, width = 200 \<rparr>)])
   \<and> contains (page []) (container plainConfig) 2
   \<and> axisOffset plainConfig 6 10 = axisOffset plainConfig 5 10
   \<and> fst (calcPositionLocal plainConfig (page []) [(Some ''b'', \<lparr> height = 100, width = 200 \<rparr>)]
            2 (Some 1) (axisOffset plainConfig 5 20)) = Pos_before
   \<and> (\<exists>s s'.
         run plainConfig initial
           [(page [], Ev_mousedown (HTMLElement 1)),
            (page [], Ev_dragstart (HTMLElement 1)),
            (page [], Ev_dragover 0 5 10 (HTMLElement 2)),
            (page [], Ev_dragover 100 6 10 (HTMLElement 2))]
         = Inr (s, [createPayload plainConfig BeforeDragStart (Ev_mousedown (HTMLElement 1)) [1]
                      Window None None,
                    createPayload plainConfig DragStart (Ev_dragstart (HTMLElement 1)) [1]
                      Window None None,
                    createPayload plainConfig DragOver (Ev_dragover 0 5 10 (HTMLElement 2)) [1]
                      Window (Some 2) (Some Pos_before)])
         \<and> rects s = [(Some ''b'', \<lparr> height = 100, width = 200 \<rparr>)]
         \<and> step plainConfig (page []) s (Ev_dragover 200 5 20 (HTMLElement 2)) = Inr (s', []))"
proof -
  let ?pB = "createPayload plainConfig BeforeDragStart (Ev_mousedown (HTMLElement 1)) [1] Window
               None None"
  let ?pS = "createPayload plainConfig DragStart (Ev_dragstart (HTMLElement 1)) [1] Window
               None None"
  let ?c1 = "[(Some ''b'', \<lparr> height = 100, width = 200 \<rparr>)]"
  have md: "mousedown plainConfig (page []) (Ev_mousedown (HTMLElement 1)) (HTMLElement 1) = Some ?pB"
    by (simp add: model_defs)
  have ds: "dragStart plainConfig (page []) (Ev_dragstart (HTMLElement 1)) (HTMLElement 1) = Some ?pS"
    by (simp add: model_defs)
  have first: "firstElement (dragElements ?pS) = Some 1"
    by (simp add: createPayload_def firstElement_def)
  have drop: "closestOf (page []) (HTMLElement 2) (dropElementSelector plainConfig) = Some 2"
    by (simp add: model_defs)
  have pos1: "calcPositionLocal plainConfig (page []) [] 2 (Some 1) (axisOffset plainConfig 5 10)
                = (Pos_before, ?c1)"
    by (simp add: model_defs)
  have inside: "contains (page []) (container plainConfig) 2"
    by (simp add: model_defs)
  have same: "axisOffset plainConfig 6 10 = axisOffset plainConfig 5 10"
    by (simp add: model_defs)
  have pos3: "fst (calcPositionLocal plainConfig (page []) ?c1 2 (Some 1) (axisOffset plainConfig 5 20))
                = Pos_before"
    by (simp add: model_defs)
  have dS: "dragElements ?pS = [1]" by (simp add: createPayload_def)
  from deduplicated_on_fresh_engine
    [OF md ds drop pos1 [folded first] inside same drop pos3 [folded first],
      of 0 "page []" 100 "HTMLElement 2" 200]
  have "\<exists>s s'.
          run plainConfig initial
            [(page [], Ev_mousedown (HTMLElement 1)),
             (page [], Ev_dragstart (HTMLElement 1)),
             (page [], Ev_dragover 0 5 10 (HTMLElement 2)),
             (page [], Ev_dragover 100 6 10 (HTMLElement 2))]
          = Inr (s, [?pB, ?pS,
                     createPayload plainConfig DragOver (Ev_dragover 0 5 10 (HTMLElement 2)) [1]
                       Window (Some 2) (Some Pos_before)])
          \<and> rects s = ?c1
          \<and> step plainConfig (page []) s (Ev_dragover 200 5 20 (HTMLElement 2)) = Inr (s', [])"
    unfolding dS by (simp add: page_def)
  with md ds drop pos1 inside same pos3 show ?thesis by blast
qed

text \<open>
  In any engine state, a drag-over event whose axis offset is the previous offset of
  every subscribed drag-over pipeline emits nothing, raises nothing and leaves the slot
  and the rectangle cache untouched: no position is computed.
\<close>

lemma deliver_invariant_on:
  assumes h: "\<And>cur cache i. I cur cache \<Longrightarrow> P i \<Longrightarrow>
                \<exists>cache' i' out. h cur cache i = Inr (cache', i', out)
                  \<and> I (storePayload out cur) cache' \<and> list_all Q (emitted out)"
    and "I cur cache" and "list_all P subs"
  shows "\<exists>cur' cache' subs' outs. deliver h cur cache subs = Inr (cur', cache', subs', outs)
           \<and> I cur' cache' \<and> list_all Q outs"
  using assms(2,3)
proof (induction subs arbitrary: cur cache)
  case Nil
  then show ?case by simp
next
  case (Cons i rest)
  from Cons.prems(2) have "P i" and rest: "list_all P rest" by simp_all
  from h [OF Cons.prems(1) \<open>P i\<close>] obtain cache1 i1 out
    where hd: "h cur cache i = Inr (cache1, i1, out)"
      and inv: "I (storePayload out cur) cache1" and q: "list_all Q (emitted out)"
    by blast
  from Cons.IH [OF inv rest] obtain cur2 cache2 rest2 outs
    where tl: "deliver h (storePayload out cur) cache1 rest = Inr (cur2, cache2, rest2, outs)"
      and inv2: "I cur2 cache2" and q2: "list_all Q outs"
    by blast
  show ?case using hd tl inv2 q q2 by simp
qed

lemma overInner_unchanged_offset:
  assumes "cur = cur0 \<and> cache = c0"
    and "prevOffset (over i) = Some (axisOffset cfg x y)"
  shows "\<exists>cache' i' out. overInner cfg d ev t x y tgt cur cache i = Inr (cache', i', out)
           \<and> (storePayload out cur = cur0 \<and> cache' = c0)
           \<and> list_all (\<lambda>p. False) (emitted out)"
proof (cases "overOpen i")
  case False
  then show ?thesis using assms(1) by (simp add: overInner_def storePayload_def emitted_def)
next
  case True
  from dragOver_unchanged_offset [OF assms(2)]
  obtain os' where "dragOver cfg d ev t x y tgt cur cache (over i) = Inr (os', cache, None)"
    by blast
  then show ?thesis
    using True assms(1) by (simp add: overInner_def storePayload_def emitted_def)
qed

lemma step_unchanged_offset:
  assumes "list_all (\<lambda>i. prevOffset (over i) = Some (axisOffset cfg x y)) (inners s)"
  shows "\<exists>s'. step cfg d s (Ev_dragover t x y tgt) = Inr (s', [])
           \<and> currentPayload s' = currentPayload s \<and> rects s' = rects s"
proof -
  let ?h = "overInner cfg d (Ev_dragover t x y tgt) t x y tgt"
  have "\<exists>cur' cache' subs' outs.
          deliver ?h (currentPayload s) (rects s) (inners s) = Inr (cur', cache', subs', outs)
          \<and> (cur' = currentPayload s \<and> cache' = rects s)
          \<and> list_all (\<lambda>p. False) outs"
    by (rule deliver_invariant_on
          [where I = "\<lambda>cur cache. cur = currentPayload s \<and> cache = rects s"
             and P = "\<lambda>i. prevOffset (over i) = Some (axisOffset cfg x y)"])
       (rule overInner_unchanged_offset, assumption, assumption, simp, rule assms)
  then obtain cur' cache' subs' outs
    where "deliver ?h (currentPayload s) (rects s) (inners s) = Inr (cur', cache', subs', outs)"
      and "cur' = currentPayload s" and "cache' = rects s" and "list_all (\<lambda>p. False) outs"
    by blast
  then show ?thesis by (simp add: afterDelivery_def list_all_False)
qed

text \<open>
  C9. Item 1 is pressed and released without a drag, then pressed again and dragged
  over item 2 at \<open>offsetY\<close> 10, in the upper half of item 2, and 100 ms later over item 2
  at \<open>offsetY\<close> 10 again. Each of the two subscribed drag-over pipelines deduplicates on
  its own: the second event emits nothing, but the first event is emitted by both, and
  the stream holds two \<open>DragOver\<close> payloads for item 2, not one.
\<close>

theorem aborted_attempt_duplicates_DragOver:
  "\<exists>s outs s'.
     run plainConfig initial
       [(page [], Ev_mousedown (HTMLElement 1)),
        (page [], Ev_mouseup),
        (page [], Ev_mousedown (HTMLElement 1)),
        (page [], Ev_dragstart (HTMLElement 1)),
        (page [], Ev_dragover 0 5 10 (HTMLElement 2))] = Inr (s, outs)
     \<and> map (\<lambda>p. (ptype p, dropElement p, position p)) outs
         = [(BeforeDragStart, None, None),
            (BeforeDragStart, None, None),
            (DragStart, None, None),
            (DragStart, None, None),
            (DragOver, Some 2, Some Pos_before),
            (DragOver, Some 2, Some Pos_before)]
     \<and> step plainConfig (page []) s (Ev_dragover 100 5 10 (HTMLElement 2)) = Inr (s', [])"
  by (simp add: model_defs)

section \<open>An unchanged offset over a new drop element\<close>

text \<open>
  C10. There are two consecutive drag-over events with equal axis offsets whose targets
  resolve to different drop elements, the second of which emits nothing: item 1 is
  dragged over item 2 at \<open>offsetY\<close> 10, which emits a \<open>DragOver\<close> payload for item 2, and
  100 ms later over item 3 at \<open>offsetY\<close> 10, which emits nothing. At \<open>offsetY\<close> 11 the
  same second event emits a \<open>DragOver\<close> payload for item 3, so it is the unchanged
  offset that suppresses it, not the throttle.
\<close>

theorem same_offset_new_target_skipped:
  "\<exists>s0 o0 s1 o1 s2 s3 o3.
     run plainConfig initial
       [(page [], Ev_mousedown (HTMLElement 1)),
        (page [], Ev_dragstart (HTMLElement 1))] = Inr (s0, o0)
     \<and> step plainConfig (page []) s0 (Ev_dragover 0 5 10 (HTMLElement 2)) = Inr (s1, o1)
     \<and> map (\<lambda>p. (ptype p, dropElement p)) o1 = [(DragOver, Some 2)]
     \<and> closestOf (page []) (HTMLElement 2) (dropElementSelector plainConfig) = Some 2
     \<and> closestOf (page []) (HTMLElement 3) (dropElementSelector plainConfig) = Some 3
     \<and> step plainConfig (page []) s1 (Ev_dragover 100 5 10 (HTMLElement 3)) = Inr (s2, [])
     \<and> step plainConfig (page []) s1 (Ev_dragover 100 5 11 (HTMLElement 3)) = Inr (s3, o3)
     \<and> map (\<lambda>p. (ptype p, dropElement p)) o3 = [(DragOver, Some 3)]"
  by (simp add: model_defs)

end
